theory Spec2Isabelle
  imports Complex_Main
begin

section \<open>Content analyzer: media sampling and analysis orchestration\<close>

text \<open>
  A shallow embedding of \<^verbatim>\<open>src/safety.ipynb\<close> (class \<^verbatim>\<open>ContentAnalyzer\<close>).
  Every call into a library (OpenCV, librosa, the inference client, the file system) is a
  field of an environment record that gives the call's outcome; what the program changes
  outside itself (temporary files, capture handles, inference calls, persisted reports,
  log lines) is a record that every operation takes and returns.
\<close>

subsection \<open>Exceptions\<close>

text \<open>
  An instance of Python's \<^verbatim>\<open>Exception\<close> with its \<^verbatim>\<open>str(e)\<close> text. The handlers of
  the source are all \<^verbatim>\<open>except Exception\<close>, so the class of the exception never decides
  a branch. \<^verbatim>\<open>KeyboardInterrupt\<close> and \<^verbatim>\<open>SystemExit\<close> are not modelled.
\<close>

datatype exn = Exception string

fun str :: "exn \<Rightarrow> string" where
  "str (Exception m) = m"

definition ZeroDivisionError :: exn where
  "ZeroDivisionError = Exception ''integer division or modulo by zero''"

subsection \<open>The frame sampler\<close>

text \<open>
  Python's \<^verbatim>\<open>range(i, stop, step)\<close> for a positive step. The source calls it with
  \<^verbatim>\<open>step = max(1, ...)\<close> only.
\<close>

function py_range :: "int \<Rightarrow> int \<Rightarrow> int \<Rightarrow> int list" where
  "py_range i stop step =
     (if 0 < step \<and> i < stop then i # py_range (i + step) stop step else [])"
  by pat_completeness auto
termination
  by (relation "measure (\<lambda>(i, stop, step). nat (stop - i))") auto

declare py_range.simps [simp del]

text \<open>
  What OpenCV decodes from the file at a path: the frame count the capture reports
  (\<^verbatim>\<open>int(cap.get(cv2.CAP_PROP_FRAME_COUNT))\<close>) and, for each index, the outcome of
  \<^verbatim>\<open>cap.set(cv2.CAP_PROP_POS_FRAMES, i); ret, frame = cap.read()\<close>: the call raises,
  or \<^verbatim>\<open>ret\<close> is false (\<open>Inr None\<close>), or a frame comes back.
\<close>

record 'f video =
  frame_count :: int
  seek_read :: "int \<Rightarrow> exn + 'f option"

text \<open>
  The body of the \<^verbatim>\<open>for\<close> loop of \<^verbatim>\<open>extract_frames\<close>, over the indices still to
  visit, with the list \<^verbatim>\<open>frames\<close> collected so far.
\<close>

fun sample_loop :: "(int \<Rightarrow> exn + 'f option) \<Rightarrow> int \<Rightarrow> int list \<Rightarrow> 'f list \<Rightarrow> exn + 'f list" where
  "sample_loop rd max_frames [] frames = Inr frames"
| "sample_loop rd max_frames (i # rest) frames =
     (case rd i of
        Inl e \<Rightarrow> Inl e
      | Inr r \<Rightarrow>
          (let frames' = (case r of Some frame \<Rightarrow> frames @ [frame] | None \<Rightarrow> frames)
           in if max_frames \<le> int (length frames') then Inr frames'
              else sample_loop rd max_frames rest frames'))"

text \<open>
  \<^verbatim>\<open>extract_frames\<close> without its handle: the interval, the loop and the result.
  \<^verbatim>\<open>total_frames // max_frames\<close> raises for \<^verbatim>\<open>max_frames = 0\<close>.
\<close>

definition sample_frames :: "'f video \<Rightarrow> int \<Rightarrow> exn + 'f list" where
  "sample_frames v max_frames =
     (if max_frames = 0 then Inl ZeroDivisionError
      else
        (let total_frames = frame_count v;
             interval = max 1 (total_frames div max_frames)
         in sample_loop (seek_read v) max_frames (py_range 0 total_frames interval) []))"

text \<open>
  The sampler as the specification words it: visit \<open>0, interval, 2 * interval, ...\<close>
  below \<open>T\<close>, keep the indices that decode, stop at \<open>C\<close> of them.
\<close>

definition spec_sample_indices :: "int \<Rightarrow> int \<Rightarrow> (int \<Rightarrow> bool) \<Rightarrow> int list" where
  "spec_sample_indices T C ok =
     (let interval = max 1 (T div C)
      in take (nat C)
           (filter ok (map (\<lambda>k. int k * interval) [0..<nat ((T + interval - 1) div interval)])))"

definition decodes :: "'f video \<Rightarrow> int \<Rightarrow> bool" where
  "decodes v i = (case seek_read v i of Inr (Some frame) \<Rightarrow> True | _ \<Rightarrow> False)"

definition raises :: "'f video \<Rightarrow> int \<Rightarrow> bool" where
  "raises v i = (case seek_read v i of Inl e \<Rightarrow> True | Inr r \<Rightarrow> False)"

definition frame_at :: "'f video \<Rightarrow> int \<Rightarrow> 'f option" where
  "frame_at v i = (case seek_read v i of Inr r \<Rightarrow> r | Inl e \<Rightarrow> None)"

subsection \<open>What the program changes and what it is told\<close>

text \<open>
  A Python \<^verbatim>\<open>str\<close> that may hold any text (the verdicts of the inference service and
  what is written to the report file) is its list of code points; the ASCII texts of the
  program (prompts, timestamps, log lines, file names, exception texts) are \<^typ>\<open>string\<close>.
\<close>

type_synonym pystr = "nat list"

type_synonym bytes = "nat list"

text \<open>
  The argument of \<^verbatim>\<open>chat.send_message\<close>: the list \<^verbatim>\<open>[prompt, *pil_frames[:10]]\<close> of
  the video branch, or the prompt alone of the audio branch.
\<close>

datatype 'i message = Parts string "'i list" | Text string

text \<open>The dictionary \<^verbatim>\<open>results\<close> of \<^verbatim>\<open>analyze_content\<close>.\<close>

record report =
  timestamp :: pystr
  video_analysis :: "pystr option"
  audio_analysis :: "pystr option"

text \<open>What \<^verbatim>\<open>analyze_content\<close> returns: \<^verbatim>\<open>results\<close>, or \<^verbatim>\<open>{"error": str(e)}\<close>.\<close>

datatype result = Report report | ErrorResult string

record 'i world =
  tmp_files :: "string list"
  open_caps :: "string list"
  calls :: "'i message list"
  stored :: "(string \<times> bytes) list"
  logs :: "string list"

datatype fs_op = Create string | Write string | Unlink string | OpenWrite string

text \<open>The dictionary that \<^verbatim>\<open>extract_audio_features\<close> returns. A finite float is its exact
  rational value; NaN and the infinities are not modelled.\<close>

record features =
  duration :: rat
  rms_energy :: rat
  spectral_centroid :: rat
  zero_crossing_rate :: rat

text \<open>
  The outcomes of the library calls of one invocation:
  \<^item> \<open>now_iso\<close>: \<^verbatim>\<open>datetime.now().isoformat()\<close> in \<^verbatim>\<open>analyze_content\<close>;
    \<open>now_stamp\<close>: \<^verbatim>\<open>datetime.now().strftime('%Y%m%d_%H%M%S')\<close> in \<^verbatim>\<open>save_results\<close>;
  \<^item> \<open>tmp_video\<close>, \<open>tmp_audio\<close>: the names \<^verbatim>\<open>tempfile.NamedTemporaryFile\<close> chooses;
  \<^item> \<open>fs_error\<close>: the exception a file-system operation raises, if it raises;
  \<^item> \<open>video_at\<close>: what \<^verbatim>\<open>cv2.VideoCapture\<close> decodes from a path;
  \<^item> \<open>convert\<close>: \<^verbatim>\<open>Image.fromarray(cv2.cvtColor(frame, cv2.COLOR_BGR2RGB))\<close>;
  \<^item> \<open>generate\<close>: \<^verbatim>\<open>chat.send_message(...)\<close> on a fresh chat, then \<^verbatim>\<open>response.text\<close>;
  \<^item> \<open>librosa_load\<close>: \<^verbatim>\<open>librosa.load(path)\<close>, the waveform and the sample rate;
  \<^item> \<open>rms_mean\<close>, \<open>centroid_mean\<close>, \<open>zcr_mean\<close>: \<^verbatim>\<open>librosa.feature.rms(y=y).mean()\<close>,
    \<^verbatim>\<open>librosa.feature.spectral_centroid(y=y).mean()\<close> and
    \<^verbatim>\<open>librosa.feature.zero_crossing_rate(y).mean()\<close>.
\<close>

record ('f, 'i) env =
  now_iso :: string
  now_stamp :: string
  tmp_video :: string
  tmp_audio :: string
  fs_error :: "fs_op \<Rightarrow> exn option"
  video_at :: "string \<Rightarrow> 'f video"
  convert :: "'f \<Rightarrow> exn + 'i"
  generate :: "'i message \<Rightarrow> exn + pystr"
  librosa_load :: "string \<Rightarrow> exn + (rat list \<times> int)"
  rms_mean :: "rat list \<Rightarrow> exn + rat"
  centroid_mean :: "rat list \<Rightarrow> exn + rat"
  zcr_mean :: "rat list \<Rightarrow> exn + rat"

subsection \<open>\<^verbatim>\<open>extract_frames\<close>\<close>

text \<open>
  \<^verbatim>\<open>cap = cv2.VideoCapture(video_path)\<close> opens a handle, \<^verbatim>\<open>cap.release()\<close> after the
  loop closes it. An exception of the loop leaves the function before \<^verbatim>\<open>cap.release()\<close>.
\<close>

definition extract_frames ::
  "('f, 'i) env \<Rightarrow> string \<Rightarrow> int \<Rightarrow> 'i world \<Rightarrow> (exn + 'f list) \<times> 'i world" where
  "extract_frames env video_path max_frames w =
     (let w1 = w\<lparr>open_caps := open_caps w @ [video_path]\<rparr>
      in case sample_frames (video_at env video_path) max_frames of
           Inl e \<Rightarrow> (Inl e, w1)
         | Inr frames \<Rightarrow> (Inr frames, w1\<lparr>open_caps := remove1 video_path (open_caps w1)\<rparr>))"

subsection \<open>\<^verbatim>\<open>analyze_video\<close>\<close>

text \<open>The list comprehension over \<^verbatim>\<open>frames\<close>: the first conversion that raises ends it.\<close>

fun convert_all :: "('f \<Rightarrow> exn + 'i) \<Rightarrow> 'f list \<Rightarrow> exn + 'i list" where
  "convert_all cv [] = Inr []"
| "convert_all cv (frame # rest) =
     (case cv frame of
        Inl e \<Rightarrow> Inl e
      | Inr img \<Rightarrow> (case convert_all cv rest of Inl e \<Rightarrow> Inl e | Inr imgs \<Rightarrow> Inr (img # imgs)))"

definition video_prompt :: string where
  "video_prompt =
     ''\<newline>'' @
     ''            Analyze these video frames for signs of harassment or concerning behavior.\<newline>'' @
     ''            Focus on:\<newline>'' @
     ''            1. Aggressive or threatening movements\<newline>'' @
     ''            2. Signs of distress or danger\<newline>'' @
     ''            3. Unsafe situations\<newline>'' @
     ''            4. Suspicious patterns\<newline>'' @
     ''\<newline>'' @
     ''            Based on training with Bengali content, provide a detailed assessment.\<newline>'' @
     ''            ''"

text \<open>The body of the \<^verbatim>\<open>try\<close> of \<^verbatim>\<open>analyze_video\<close>.\<close>

definition analyze_video_try ::
  "('f, 'i) env \<Rightarrow> string \<Rightarrow> 'i world \<Rightarrow> (exn + pystr) \<times> 'i world" where
  "analyze_video_try env video_path w =
     (case extract_frames env video_path 10 w of
        (Inl e, w1) \<Rightarrow> (Inl e, w1)
      | (Inr frames, w1) \<Rightarrow>
          (case convert_all (convert env) frames of
             Inl e \<Rightarrow> (Inl e, w1)
           | Inr pil_frames \<Rightarrow>
               (let msg = Parts video_prompt (take 10 pil_frames)
                in (generate env msg, w1\<lparr>calls := calls w1 @ [msg]\<rparr>))))"

definition analyze_video ::
  "('f, 'i) env \<Rightarrow> string \<Rightarrow> 'i world \<Rightarrow> pystr option \<times> 'i world" where
  "analyze_video env video_path w =
     (case analyze_video_try env video_path w of
        (Inr text, w1) \<Rightarrow> (Some text, w1)
      | (Inl e, w1) \<Rightarrow> (None, w1\<lparr>logs := logs w1 @ [''Error in video analysis: '' @ str e]\<rparr>))"

subsection \<open>Fixed-precision formatting\<close>

text \<open>
  Python's \<^verbatim>\<open>format(x, '.pf')\<close> of a finite float: the exact value of \<open>x\<close> rounded to
  \<open>p\<close> decimal places, ties to the even neighbour, written with a sign when \<open>x\<close> is
  negative, the integer digits, and the point with exactly \<open>p\<close> digits when \<open>p\<close> is not zero.
\<close>

definition digit_char :: "nat \<Rightarrow> char" where
  "digit_char d = ''0123456789'' ! d"

fun show_nat :: "nat \<Rightarrow> string" where
  "show_nat n = (if n < 10 then [digit_char n] else show_nat (n div 10) @ [digit_char (n mod 10)])"

declare show_nat.simps [simp del]

definition round_half_even :: "rat \<Rightarrow> int" where
  "round_half_even x =
     (let f = \<lfloor>x\<rfloor>; d = x - of_int f
      in if d < 1 / 2 then f else if 1 / 2 < d then f + 1 else if even f then f else f + 1)"

definition format_f :: "nat \<Rightarrow> rat \<Rightarrow> string" where
  "format_f p x =
     (let n = nat (round_half_even (\<bar>x\<bar> * 10 ^ p));
          whole = show_nat (n div 10 ^ p);
          frac = show_nat (n mod 10 ^ p)
      in (if x < 0 then ''-'' else []) @ whole @
         (if p = 0 then [] else ''.'' @ replicate (p - length frac) (CHR ''0'') @ frac))"

text \<open>The number of characters after the decimal point of a rendered number.\<close>

definition decimals :: "string \<Rightarrow> nat" where
  "decimals s = length (drop 1 (dropWhile (\<lambda>c. c \<noteq> CHR ''.'') s))"

text \<open>
  Reading a rendered prompt back: what follows the first occurrence of a label, and the
  field that starts there and ends before the next space or line break.
\<close>

fun after_label :: "string \<Rightarrow> string \<Rightarrow> string option" where
  "after_label label [] = None"
| "after_label label (c # cs) =
     (if take (length label) (c # cs) = label then Some (drop (length label) (c # cs))
      else after_label label cs)"

definition field :: "string \<Rightarrow> string \<Rightarrow> string" where
  "field label s =
     (case after_label label s of
        None \<Rightarrow> []
      | Some rest \<Rightarrow> takeWhile (\<lambda>c. c \<noteq> CHR '' '' \<and> c \<noteq> CHR 0x0A) rest)"

subsection \<open>\<^verbatim>\<open>extract_audio_features\<close> and \<^verbatim>\<open>analyze_audio\<close>\<close>

text \<open>
  The dictionary display evaluates its four values in order; \<^verbatim>\<open>len(y) / sr\<close> raises for
  \<^verbatim>\<open>sr = 0\<close>. The quotient is the exact one: the rounding of the float division is not
  modelled.
\<close>

definition extract_audio_features :: "('f, 'i) env \<Rightarrow> string \<Rightarrow> exn + features" where
  "extract_audio_features env audio_path =
     (case librosa_load env audio_path of
        Inl e \<Rightarrow> Inl e
      | Inr (y, sr) \<Rightarrow>
          if sr = 0 then Inl (Exception ''division by zero'')
          else
            (case rms_mean env y of
               Inl e \<Rightarrow> Inl e
             | Inr rms \<Rightarrow>
                 (case centroid_mean env y of
                    Inl e \<Rightarrow> Inl e
                  | Inr centroid \<Rightarrow>
                      (case zcr_mean env y of
                         Inl e \<Rightarrow> Inl e
                       | Inr zcr \<Rightarrow>
                           Inr \<lparr>duration = of_nat (length y) / of_int sr,
                                rms_energy = rms,
                                spectral_centroid = centroid,
                                zero_crossing_rate = zcr\<rparr>))))"

text \<open>The f-string of \<^verbatim>\<open>analyze_audio\<close>.\<close>

definition audio_prompt :: "features \<Rightarrow> string" where
  "audio_prompt f =
     ''\<newline>'' @
     ''            Analyze these audio characteristics for concerning content:\<newline>'' @
     ''            \<newline>'' @
     ''            Audio Features:\<newline>'' @
     ''            - Duration: '' @ format_f 2 (duration f) @ '' seconds\<newline>'' @
     ''            - Energy Level: '' @ format_f 4 (rms_energy f) @ ''\<newline>'' @
     ''            - Spectral Features: '' @ format_f 2 (spectral_centroid f) @ ''\<newline>'' @
     ''            - Voice Patterns: '' @ format_f 4 (zero_crossing_rate f) @ ''\<newline>'' @
     ''            \<newline>'' @
     ''            Based on training with Bengali audio content:\<newline>'' @
     ''            1. Identify any concerning speech patterns\<newline>'' @
     ''            2. Detect aggressive or threatening tones\<newline>'' @
     ''            3. Analyze emotional indicators\<newline>'' @
     ''            4. Note any suspicious audio elements\<newline>'' @
     ''            ''"

text \<open>
  The audio prompt as the specification words it: duration and energy to 2 decimal
  places, centroid to 2, zero-crossing rate to 4.
\<close>

definition spec_audio_prompt :: "features \<Rightarrow> string" where
  "spec_audio_prompt f =
     ''\<newline>'' @
     ''            Analyze these audio characteristics for concerning content:\<newline>'' @
     ''            \<newline>'' @
     ''            Audio Features:\<newline>'' @
     ''            - Duration: '' @ format_f 2 (duration f) @ '' seconds\<newline>'' @
     ''            - Energy Level: '' @ format_f 2 (rms_energy f) @ ''\<newline>'' @
     ''            - Spectral Features: '' @ format_f 2 (spectral_centroid f) @ ''\<newline>'' @
     ''            - Voice Patterns: '' @ format_f 4 (zero_crossing_rate f) @ ''\<newline>'' @
     ''            \<newline>'' @
     ''            Based on training with Bengali audio content:\<newline>'' @
     ''            1. Identify any concerning speech patterns\<newline>'' @
     ''            2. Detect aggressive or threatening tones\<newline>'' @
     ''            3. Analyze emotional indicators\<newline>'' @
     ''            4. Note any suspicious audio elements\<newline>'' @
     ''            ''"

definition analyze_audio_try ::
  "('f, 'i) env \<Rightarrow> string \<Rightarrow> 'i world \<Rightarrow> (exn + pystr) \<times> 'i world" where
  "analyze_audio_try env audio_path w =
     (case extract_audio_features env audio_path of
        Inl e \<Rightarrow> (Inl e, w)
      | Inr f \<Rightarrow>
          (let msg = Text (audio_prompt f)
           in (generate env msg, w\<lparr>calls := calls w @ [msg]\<rparr>)))"

definition analyze_audio ::
  "('f, 'i) env \<Rightarrow> string \<Rightarrow> 'i world \<Rightarrow> pystr option \<times> 'i world" where
  "analyze_audio env audio_path w =
     (case analyze_audio_try env audio_path w of
        (Inr text, w1) \<Rightarrow> (Some text, w1)
      | (Inl e, w1) \<Rightarrow> (None, w1\<lparr>logs := logs w1 @ [''Error in audio analysis: '' @ str e]\<rparr>))"

subsection \<open>\<^verbatim>\<open>save_results\<close>: the persistence format\<close>

definition ascii :: "string \<Rightarrow> pystr" where
  "ascii s = map of_char s"

text \<open>
  \<^verbatim>\<open>json.dump(results, f, ensure_ascii=False, indent=2)\<close>. With \<^verbatim>\<open>ensure_ascii=False\<close>
  the encoder of strings is \<^verbatim>\<open>json.encoder.encode_basestring\<close>: the quote, the backslash
  and the characters below U+0020 are escaped (\<^verbatim>\<open>\b \f \n \r \t\<close> by their short form, the
  others as \<^verbatim>\<open>\u00xx\<close> in lower-case hexadecimal), every other character is itself.
\<close>

definition hex_digit :: "nat \<Rightarrow> nat" where
  "hex_digit d = (if d < 10 then 48 + d else 87 + d)"

definition escape_char :: "nat \<Rightarrow> pystr" where
  "escape_char c =
     (if c = 0x22 then [0x5C, 0x22]
      else if c = 0x5C then [0x5C, 0x5C]
      else if c = 0x0A then [0x5C, 0x6E]
      else if c = 0x0D then [0x5C, 0x72]
      else if c = 0x09 then [0x5C, 0x74]
      else if c = 0x08 then [0x5C, 0x62]
      else if c = 0x0C then [0x5C, 0x66]
      else if c < 0x20 then [0x5C, 0x75, 0x30, 0x30, hex_digit (c div 16), hex_digit (c mod 16)]
      else [c])"

definition encode_basestring :: "pystr \<Rightarrow> pystr" where
  "encode_basestring s = [0x22] @ concat (map escape_char s) @ [0x22]"

text \<open>A value of the dictionary: \<^verbatim>\<open>None\<close> is written \<^verbatim>\<open>null\<close>.\<close>

definition encode_value :: "pystr option \<Rightarrow> pystr" where
  "encode_value v = (case v of None \<Rightarrow> ascii ''null'' | Some s \<Rightarrow> encode_basestring s)"

text \<open>
  With \<^verbatim>\<open>indent=2\<close> every member stands on a line of its own behind two spaces, the
  members are separated by a comma and the key from its value by a colon and a space. The
  keys come in the order the dictionary was built.
\<close>

definition json_dumps :: "report \<Rightarrow> pystr" where
  "json_dumps r =
     ascii ''{\<newline>  '' @ encode_basestring (ascii ''timestamp'') @ ascii '': '' @
       encode_basestring (timestamp r) @
     ascii '',\<newline>  '' @ encode_basestring (ascii ''video_analysis'') @ ascii '': '' @
       encode_value (video_analysis r) @
     ascii '',\<newline>  '' @ encode_basestring (ascii ''audio_analysis'') @ ascii '': '' @
       encode_value (audio_analysis r) @
     ascii ''\<newline>}''"

text \<open>
  The file is opened with \<^verbatim>\<open>encoding='utf-8'\<close>. A surrogate code point has no UTF-8
  form: writing it raises \<^verbatim>\<open>UnicodeEncodeError\<close>. A Python \<^verbatim>\<open>str\<close> holds no code point
  above U+10FFFF.
\<close>

definition scalar_value :: "nat \<Rightarrow> bool" where
  "scalar_value c = (c < 0x110000 \<and> \<not> (0xD800 \<le> c \<and> c \<le> 0xDFFF))"

definition utf8_char :: "nat \<Rightarrow> bytes option" where
  "utf8_char c =
     (if c < 0x80 then Some [c]
      else if c < 0x800 then Some [0xC0 + c div 64, 0x80 + c mod 64]
      else if c < 0x10000 then
        (if 0xD800 \<le> c \<and> c \<le> 0xDFFF then None
         else Some [0xE0 + c div 4096, 0x80 + c div 64 mod 64, 0x80 + c mod 64])
      else if c < 0x110000 then
        Some [0xF0 + c div 262144, 0x80 + c div 4096 mod 64, 0x80 + c div 64 mod 64, 0x80 + c mod 64]
      else None)"

fun utf8_encode :: "pystr \<Rightarrow> bytes option" where
  "utf8_encode [] = Some []"
| "utf8_encode (c # cs) =
     (case utf8_char c of
        None \<Rightarrow> None
      | Some bs \<Rightarrow> (case utf8_encode cs of None \<Rightarrow> None | Some rest \<Rightarrow> Some (bs @ rest)))"

definition output_file :: "('f, 'i) env \<Rightarrow> string" where
  "output_file env = ''analysis_results/analysis_'' @ now_stamp env @ ''.json''"

text \<open>
  \<^verbatim>\<open>save_results\<close>: opening the file may raise; so may the write, on a text with no UTF-8
  form (the text of that exception is shortened to its class name). What a failed write
  leaves in the file is not modelled.
\<close>

definition save_results ::
  "('f, 'i) env \<Rightarrow> report \<Rightarrow> 'i world \<Rightarrow> (exn + string) \<times> 'i world" where
  "save_results env results w =
     (case fs_error env (OpenWrite (output_file env)) of
        Some e \<Rightarrow> (Inl e, w)
      | None \<Rightarrow>
          (case utf8_encode (json_dumps results) of
             None \<Rightarrow> (Inl (Exception ''UnicodeEncodeError''), w)
           | Some data \<Rightarrow>
               (Inr (output_file env),
                w\<lparr>stored := (output_file env, data) # stored w,
                  logs := logs w @ [''Results saved to '' @ output_file env]\<rparr>)))"

subsection \<open>Reading a report file back\<close>

text \<open>
  Modelled from the spec: the reader of a persisted report file. The repository only
  writes report files; the specification gives the format, a UTF-8 JSON object with the
  keys \<^verbatim>\<open>timestamp\<close> (string), \<^verbatim>\<open>video_analysis\<close> and \<^verbatim>\<open>audio_analysis\<close> (string or
  null). Reading one back is \<^verbatim>\<open>json.load(open(path, encoding='utf-8'))\<close>: Python's strict
  UTF-8 decoder, then the JSON decoder, here for the documents that hold a report: an
  object whose values are strings or \<^verbatim>\<open>null\<close>. A document with any other value is not read
  by this model.
\<close>

definition continuation :: "nat \<Rightarrow> bool" where
  "continuation b = (0x80 \<le> b \<and> b < 0xC0)"

fun utf8_decode :: "bytes \<Rightarrow> pystr option" where
  "utf8_decode [] = Some []"
| "utf8_decode (b # bs) =
     (if b < 0x80 then map_option ((#) b) (utf8_decode bs)
      else if 0xC2 \<le> b \<and> b < 0xE0 then
        (case bs of
           b1 # rest \<Rightarrow>
             if continuation b1
             then map_option ((#) ((b - 0xC0) * 64 + (b1 - 0x80))) (utf8_decode rest)
             else None
         | _ \<Rightarrow> None)
      else if 0xE0 \<le> b \<and> b < 0xF0 then
        (case bs of
           b1 # b2 # rest \<Rightarrow>
             (let c = (b - 0xE0) * 4096 + (b1 - 0x80) * 64 + (b2 - 0x80)
              in if continuation b1 \<and> continuation b2 \<and> 0x800 \<le> c
                    \<and> \<not> (0xD800 \<le> c \<and> c \<le> 0xDFFF)
                 then map_option ((#) c) (utf8_decode rest)
                 else None)
         | _ \<Rightarrow> None)
      else if 0xF0 \<le> b \<and> b < 0xF5 then
        (case bs of
           b1 # b2 # b3 # rest \<Rightarrow>
             (let c = (b - 0xF0) * 262144 + (b1 - 0x80) * 4096 + (b2 - 0x80) * 64 + (b3 - 0x80)
              in if continuation b1 \<and> continuation b2 \<and> continuation b3
                    \<and> 0x10000 \<le> c \<and> c < 0x110000
                 then map_option ((#) c) (utf8_decode rest)
                 else None)
         | _ \<Rightarrow> None)
      else None)"

text \<open>\<^verbatim>\<open>json.decoder\<close>: white space, hexadecimal digits, the characters after a backslash.\<close>

definition is_ws :: "nat \<Rightarrow> bool" where
  "is_ws c = (c = 0x20 \<or> c = 0x09 \<or> c = 0x0A \<or> c = 0x0D)"

definition skip_ws :: "pystr \<Rightarrow> pystr" where
  "skip_ws s = dropWhile is_ws s"

definition hex_val :: "nat \<Rightarrow> nat option" where
  "hex_val c =
     (if 0x30 \<le> c \<and> c \<le> 0x39 then Some (c - 0x30)
      else if 0x61 \<le> c \<and> c \<le> 0x66 then Some (c - 0x57)
      else if 0x41 \<le> c \<and> c \<le> 0x46 then Some (c - 0x37)
      else None)"

definition hex4 :: "pystr \<Rightarrow> nat option" where
  "hex4 s =
     (case map hex_val s of
        [Some a, Some b, Some c, Some d] \<Rightarrow> Some (((a * 16 + b) * 16 + c) * 16 + d)
      | _ \<Rightarrow> None)"

definition unescape :: "nat \<Rightarrow> nat option" where
  "unescape e =
     (if e = 0x22 then Some 0x22
      else if e = 0x5C then Some 0x5C
      else if e = 0x2F then Some 0x2F
      else if e = 0x62 then Some 0x08
      else if e = 0x66 then Some 0x0C
      else if e = 0x6E then Some 0x0A
      else if e = 0x72 then Some 0x0D
      else if e = 0x74 then Some 0x09
      else None)"

definition cons_char :: "nat \<Rightarrow> (pystr \<times> pystr) option \<Rightarrow> (pystr \<times> pystr) option" where
  "cons_char c r = (case r of None \<Rightarrow> None | Some (s, rest) \<Rightarrow> Some (c # s, rest))"

text \<open>
  \<^verbatim>\<open>scanstring\<close> in strict mode, from the character after the opening quote: the string
  and what follows its closing quote. A \<^verbatim>\<open>\uXXXX\<close> escape of a high surrogate that is
  followed by the escape of a low surrogate is read as one character.
\<close>

function scan_string :: "pystr \<Rightarrow> (pystr \<times> pystr) option" where
  "scan_string [] = None"
| "scan_string (c # cs) =
     (if c = 0x22 then Some ([], cs)
      else if c = 0x5C then
        (case cs of
           [] \<Rightarrow> None
         | e # cs1 \<Rightarrow>
             if e = 0x75 then
               (case hex4 (take 4 cs1) of
                  None \<Rightarrow> None
                | Some u \<Rightarrow>
                    if 0xD800 \<le> u \<and> u \<le> 0xDBFF \<and> take 2 (drop 4 cs1) = [0x5C, 0x75] then
                      (case hex4 (take 4 (drop 6 cs1)) of
                         None \<Rightarrow> None
                       | Some u2 \<Rightarrow>
                           if 0xDC00 \<le> u2 \<and> u2 \<le> 0xDFFF
                           then cons_char (0x10000 + (u - 0xD800) * 1024 + (u2 - 0xDC00))
                                  (scan_string (drop 10 cs1))
                           else cons_char u (scan_string (drop 4 cs1)))
                    else cons_char u (scan_string (drop 4 cs1)))
             else
               (case unescape e of
                  None \<Rightarrow> None
                | Some d \<Rightarrow> cons_char d (scan_string cs1)))
      else if c < 0x20 then None
      else cons_char c (scan_string cs))"
  by pat_completeness auto
termination
  by (relation "measure length") auto

declare scan_string.simps [simp del]

text \<open>A value: a string or \<^verbatim>\<open>null\<close>.\<close>

definition scan_value :: "pystr \<Rightarrow> (pystr option \<times> pystr) option" where
  "scan_value s =
     (case s of
        [] \<Rightarrow> None
      | c # cs \<Rightarrow>
          if c = 0x22 then
            (case scan_string cs of None \<Rightarrow> None | Some (v, rest) \<Rightarrow> Some (Some v, rest))
          else if take 4 s = ascii ''null'' then Some (None, drop 4 s)
          else None)"
lemma scan_string_shorter: "scan_string s = Some (v, rest) \<Longrightarrow> length rest < length s"
proof (induction s arbitrary: v rest rule: length_induct)
  case (1 s)
  have IH: "length r' < length t"
    if "scan_string t = Some (v', r')" and "length t < length s" for t v' r'
    using 1(1) that by blast
  show ?case
  proof (cases s)
    case Nil
    then show ?thesis using 1(2) by (simp add: scan_string.simps)
  next
    case (Cons c cs)
    from 1(2) show ?thesis
      unfolding Cons
      by (subst (asm) scan_string.simps)
         (auto simp: cons_char_def Cons split: if_splits list.splits option.splits
               dest: IH)
  qed
qed

lemma skip_ws_length: "length (skip_ws s) \<le> length s"
  by (simp add: skip_ws_def length_dropWhile_le)

lemma scan_value_shorter: "scan_value s = Some (v, rest) \<Longrightarrow> length rest < length s"
  by (auto simp: scan_value_def split: list.splits if_splits option.splits
           dest: scan_string_shorter)

text \<open>
  \<^verbatim>\<open>JSONObject\<close>, from the character after the opening quote of a key: the members up to
  the closing brace, and what follows it.
\<close>

function scan_members :: "pystr \<Rightarrow> ((pystr \<times> pystr option) list \<times> pystr) option" where
  "scan_members s =
     (case scan_string s of
        None \<Rightarrow> None
      | Some (key, s1) \<Rightarrow>
          (case skip_ws s1 of
             [] \<Rightarrow> None
           | c # s2 \<Rightarrow>
               if c \<noteq> 0x3A then None
               else
                 (case scan_value (skip_ws s2) of
                    None \<Rightarrow> None
                  | Some (v, s3) \<Rightarrow>
                      (case skip_ws s3 of
                         [] \<Rightarrow> None
                       | d # s4 \<Rightarrow>
                           if d = 0x7D then Some ([(key, v)], s4)
                           else if d = 0x2C then
                             (case skip_ws s4 of
                                [] \<Rightarrow> None
                              | q # s5 \<Rightarrow>
                                  if q = 0x22 then
                                    (case scan_members s5 of
                                       None \<Rightarrow> None
                                     | Some (pairs, rest) \<Rightarrow> Some ((key, v) # pairs, rest))
                                  else None)
                           else None))))"
  by pat_completeness auto
termination
proof (relation "measure length", goal_cases)
  case 1
  show ?case by simp
next
  case (2 s x key s1 c s2 y v s3 d s4 q s5)
  have "length s1 < length s" using 2 by (auto dest: scan_string_shorter)
  moreover have "length s2 < length s1"
    using skip_ws_length [of s1] 2 by simp
  moreover have "length s3 < length s2"
    using skip_ws_length [of s2] scan_value_shorter [of "skip_ws s2" v s3] 2 by simp
  moreover have "length s4 < length s3"
    using skip_ws_length [of s3] 2 by simp
  moreover have "length s5 < length s4"
    using skip_ws_length [of s4] 2 by simp
  ultimately show ?case by simp
qed

declare scan_members.simps [simp del]

text \<open>
  \<^verbatim>\<open>json.loads\<close>: white space, the object, white space, the end of the document. The
  result is the list of the members in the order of the document; the dictionary Python
  builds from it maps a key to the value of its last member.
\<close>

definition json_loads :: "pystr \<Rightarrow> (pystr \<times> pystr option) list option" where
  "json_loads s =
     (case skip_ws s of
        [] \<Rightarrow> None
      | c # s1 \<Rightarrow>
          if c \<noteq> 0x7B then None
          else
            (case skip_ws s1 of
               [] \<Rightarrow> None
             | q # s2 \<Rightarrow>
                 if q = 0x7D then (if skip_ws s2 = [] then Some [] else None)
                 else if q = 0x22 then
                   (case scan_members s2 of
                      None \<Rightarrow> None
                    | Some (pairs, rest) \<Rightarrow> if skip_ws rest = [] then Some pairs else None)
                 else None))"

text \<open>
  The report a dictionary holds: its three fields, the timestamp a string. The dictionary
  of a report has these three keys and no other.
\<close>

definition report_of_pairs :: "(pystr \<times> pystr option) list \<Rightarrow> report option" where
  "report_of_pairs pairs =
     (let d = map_of (rev pairs)
      in case (d (ascii ''timestamp''), d (ascii ''video_analysis''), d (ascii ''audio_analysis'')) of
           (Some (Some ts), Some v, Some a) \<Rightarrow>
             if length (remdups (map fst pairs)) = 3
             then Some \<lparr>timestamp = ts, video_analysis = v, audio_analysis = a\<rparr>
             else None
         | _ \<Rightarrow> None)"

text \<open>
  Modelled from the spec: deserializing a report from the bytes of its file, the UTF-8
  decoder, then the JSON decoder, then the three fields.
\<close>

definition load_report :: "bytes \<Rightarrow> report option" where
  "load_report data =
     (case utf8_decode data of
        None \<Rightarrow> None
      | Some s \<Rightarrow> (case json_loads s of None \<Rightarrow> None | Some pairs \<Rightarrow> report_of_pairs pairs))"

text \<open>Reading the file that one path of the store holds.\<close>

definition read_report :: "'i world \<Rightarrow> string \<Rightarrow> report option" where
  "read_report w path =
     (case map_of (stored w) path of None \<Rightarrow> None | Some data \<Rightarrow> load_report data)"

subsection \<open>\<^verbatim>\<open>analyze_content\<close>\<close>

text \<open>An uploaded file is the outcome of its \<^verbatim>\<open>read()\<close>; \<open>None\<close> is Python's \<^verbatim>\<open>None\<close>.\<close>

type_synonym upload = "exn + bytes"

text \<open>An uploaded file that is absent, or whose \<^verbatim>\<open>read()\<close> returns.\<close>

definition readable :: "upload option \<Rightarrow> bool" where
  "readable u = (case u of Some (Inl e) \<Rightarrow> False | _ \<Rightarrow> True)"

text \<open>
  The block of the video: the temporary file is created by the \<^verbatim>\<open>with\<close> statement
  (\<^verbatim>\<open>delete=False\<close>), written, analyzed inside the \<^verbatim>\<open>with\<close>, and unlinked after it.
  The block of the audio has the same shape.
\<close>

definition video_block ::
  "('f, 'i) env \<Rightarrow> upload option \<Rightarrow> report \<Rightarrow> 'i world \<Rightarrow> (exn + report) \<times> 'i world" where
  "video_block env video_file results w =
     (case video_file of
        None \<Rightarrow> (Inr results, w)
      | Some upload \<Rightarrow>
          (let w1 = w\<lparr>logs := logs w @ [''Analyzing video...'']\<rparr>
           in case fs_error env (Create (tmp_video env)) of
                Some e \<Rightarrow> (Inl e, w1)
              | None \<Rightarrow>
                  (let w2 = w1\<lparr>tmp_files := tmp_files w1 @ [tmp_video env]\<rparr>
                   in case upload of
                        Inl e \<Rightarrow> (Inl e, w2)
                      | Inr data \<Rightarrow>
                          (case fs_error env (Write (tmp_video env)) of
                             Some e \<Rightarrow> (Inl e, w2)
                           | None \<Rightarrow>
                               (case analyze_video env (tmp_video env) w2 of
                                  (video_analysis', w3) \<Rightarrow>
                                    (case fs_error env (Unlink (tmp_video env)) of
                                       Some e \<Rightarrow> (Inl e, w3)
                                     | None \<Rightarrow>
                                         (Inr (results\<lparr>video_analysis := video_analysis'\<rparr>),
                                          w3\<lparr>tmp_files := remove1 (tmp_video env) (tmp_files w3)\<rparr>)))))))"

definition audio_block ::
  "('f, 'i) env \<Rightarrow> upload option \<Rightarrow> report \<Rightarrow> 'i world \<Rightarrow> (exn + report) \<times> 'i world" where
  "audio_block env audio_file results w =
     (case audio_file of
        None \<Rightarrow> (Inr results, w)
      | Some upload \<Rightarrow>
          (let w1 = w\<lparr>logs := logs w @ [''Analyzing audio...'']\<rparr>
           in case fs_error env (Create (tmp_audio env)) of
                Some e \<Rightarrow> (Inl e, w1)
              | None \<Rightarrow>
                  (let w2 = w1\<lparr>tmp_files := tmp_files w1 @ [tmp_audio env]\<rparr>
                   in case upload of
                        Inl e \<Rightarrow> (Inl e, w2)
                      | Inr data \<Rightarrow>
                          (case fs_error env (Write (tmp_audio env)) of
                             Some e \<Rightarrow> (Inl e, w2)
                           | None \<Rightarrow>
                               (case analyze_audio env (tmp_audio env) w2 of
                                  (audio_analysis', w3) \<Rightarrow>
                                    (case fs_error env (Unlink (tmp_audio env)) of
                                       Some e \<Rightarrow> (Inl e, w3)
                                     | None \<Rightarrow>
                                         (Inr (results\<lparr>audio_analysis := audio_analysis'\<rparr>),
                                          w3\<lparr>tmp_files := remove1 (tmp_audio env) (tmp_files w3)\<rparr>)))))))"

text \<open>The body of the \<^verbatim>\<open>try\<close> of \<^verbatim>\<open>analyze_content\<close>.\<close>

definition analyze_content_try ::
  "('f, 'i) env \<Rightarrow> upload option \<Rightarrow> upload option \<Rightarrow> 'i world \<Rightarrow> (exn + report) \<times> 'i world" where
  "analyze_content_try env video_file audio_file w =
     (let results = \<lparr>timestamp = ascii (now_iso env), video_analysis = None, audio_analysis = None\<rparr>
      in case video_block env video_file results w of
           (Inl e, w1) \<Rightarrow> (Inl e, w1)
         | (Inr results1, w1) \<Rightarrow>
             (case audio_block env audio_file results1 w1 of
                (Inl e, w2) \<Rightarrow> (Inl e, w2)
              | (Inr results2, w2) \<Rightarrow>
                  (case save_results env results2 w2 of
                     (Inl e, w3) \<Rightarrow> (Inl e, w3)
                   | (Inr file, w3) \<Rightarrow> (Inr results2, w3))))"

text \<open>
  \<^verbatim>\<open>analyze_content\<close>: the handler \<^verbatim>\<open>except Exception as e\<close> turns every exception of the
  body into \<^verbatim>\<open>{"error": str(e)}\<close>.
\<close>

definition analyze_content ::
  "('f, 'i) env \<Rightarrow> upload option \<Rightarrow> upload option \<Rightarrow> 'i world \<Rightarrow> result \<times> 'i world" where
  "analyze_content env video_file audio_file w =
     (case analyze_content_try env video_file audio_file w of
        (Inr results, w1) \<Rightarrow> (Report results, w1)
      | (Inl e, w1) \<Rightarrow>
          (ErrorResult (str e), w1\<lparr>logs := logs w1 @ [''Error in analysis: '' @ str e]\<rparr>))"

subsection \<open>The acoustic features as the specification describes them\<close>

text \<open>
  Modelled from the spec: what \<^verbatim>\<open>librosa.feature.rms(y=y).mean()\<close> and
  \<^verbatim>\<open>librosa.feature.zero_crossing_rate(y).mean()\<close> compute. The library is not in the
  repository; the specification describes the two features as the mean over the frames of
  the root-mean-square amplitude of each analysis window, and the mean over the frames of
  the fraction of sign changes in each analysis window, with a window and a hop that are
  fixed. Here the window \<open>N\<close> and the hop \<open>H\<close> are parameters, the waveform is padded
  with zeros (half a window before it, a window after it) so that every window is full, and
  there is one window per hop position up to the end of the waveform, as librosa centres
  its frames. The arithmetic is exact.
\<close>

definition windows :: "nat \<Rightarrow> nat \<Rightarrow> real list \<Rightarrow> real list list" where
  "windows N H y =
     map (\<lambda>k. take N (drop (k * H) (replicate (N div 2) 0 @ y @ replicate N 0)))
       [0..<Suc (length y div H)]"

definition mean :: "real list \<Rightarrow> real" where
  "mean xs = sum_list xs / real (length xs)"

definition rms_frame :: "real list \<Rightarrow> real" where
  "rms_frame w = sqrt (mean (map (\<lambda>x. x * x) w))"

text \<open>A sign change: of two neighbouring samples one is negative and the other is not.\<close>

fun sign_changes :: "real list \<Rightarrow> nat" where
  "sign_changes (a # b # rest) =
     (if (a < 0) \<noteq> (b < 0) then 1 else 0) + sign_changes (b # rest)"
| "sign_changes w = 0"

definition zcr_frame :: "real list \<Rightarrow> real" where
  "zcr_frame w = real (sign_changes w) / real (length w)"

definition spec_rms_mean :: "nat \<Rightarrow> nat \<Rightarrow> real list \<Rightarrow> real" where
  "spec_rms_mean N H y = mean (map rms_frame (windows N H y))"

definition spec_zcr_mean :: "nat \<Rightarrow> nat \<Rightarrow> real list \<Rightarrow> real" where
  "spec_zcr_mean N H y = mean (map zcr_frame (windows N H y))"

text \<open>
  Modelled from the spec: the features are scalar floats. The float a computation returns
  is taken to be its exact value rounded, by a rounding that keeps the order and leaves 0
  and 1 as they are, as rounding to the nearest float does.
\<close>

definition rounding :: "(real \<Rightarrow> rat) \<Rightarrow> bool" where
  "rounding rnd = (mono rnd \<and> rnd 0 = 0 \<and> rnd 1 = 1)"

text \<open>
  Modelled from the spec: an environment whose librosa computes, for the waveform it loads
  from a path, the two features as described, with a positive sample rate.
\<close>

definition librosa_as_specified ::
  "nat \<Rightarrow> nat \<Rightarrow> (real \<Rightarrow> rat) \<Rightarrow> ('f, 'i) env \<Rightarrow> string \<Rightarrow> bool" where
  "librosa_as_specified N H rnd env path =
     (case librosa_load env path of
        Inl e \<Rightarrow> True
      | Inr (y, sr) \<Rightarrow>
          0 < sr
          \<and> rms_mean env y = Inr (rnd (spec_rms_mean N H (map of_rat y)))
          \<and> zcr_mean env y = Inr (rnd (spec_zcr_mean N H (map of_rat y))))"

text \<open>A rounding to evaluate with: down to the next multiple of \<open>2\<^sup>-\<^sup>2\<^sup>4\<close>.\<close>

definition round_down :: "real \<Rightarrow> rat" where
  "round_down x = of_int \<lfloor>x * 16777216\<rfloor> / 16777216"

subsection \<open>A concrete invocation\<close>

text \<open>
  An environment to evaluate the program on: a video of 25 frames that are their own
  indices, of which the frame at index 4 does not decode; a silent waveform of three
  seconds at 22050 Hz; an inference service that answers every message with a Bengali
  word; a file system on which every operation succeeds.
\<close>

definition bengali_text :: pystr where
  "bengali_text = [0x9A8, 0x9BF, 0x9B0, 0x9BE, 0x9AA, 0x9A6]"

definition example_env :: "(int, int) env" where
  "example_env =
     \<lparr>now_iso = ''2024-05-01T10:20:30.123456'',
      now_stamp = ''20240501_102030'',
      tmp_video = ''/tmp/tmpvideo.mp4'',
      tmp_audio = ''/tmp/tmpaudio.wav'',
      fs_error = (\<lambda>op. None),
      video_at = (\<lambda>p. \<lparr>frame_count = 25,
                         seek_read = (\<lambda>i. if i = 4 then Inr None else Inr (Some i))\<rparr>),
      convert = (\<lambda>frame. Inr frame),
      generate = (\<lambda>msg. Inr bengali_text),
      librosa_load = (\<lambda>p. Inr (replicate 66150 0, 22050)),
      rms_mean = (\<lambda>y. Inr 0),
      centroid_mean = (\<lambda>y. Inr 0),
      zcr_mean = (\<lambda>y. Inr 0)\<rparr>"

definition empty_world :: "int world" where
  "empty_world = \<lparr>tmp_files = [], open_caps = [], calls = [], stored = [], logs = []\<rparr>"

text \<open>An upload of one megabyte. The program never looks at the bytes.\<close>

definition megabyte_upload :: bytes where
  "megabyte_upload = replicate 1048576 0"


text \<open>The same invocation with a video of 100 frames that all decode.\<close>

definition hundred_frames_env :: "(int, int) env" where
  "hundred_frames_env =
     example_env\<lparr>video_at := (\<lambda>p. \<lparr>frame_count = 100, seek_read = (\<lambda>i. Inr (Some i))\<rparr>)\<rparr>"

text \<open>The same invocation with a capture whose read raises at index 6.\<close>

definition raising_video_env :: "(int, int) env" where
  "raising_video_env =
     example_env\<lparr>video_at :=
       (\<lambda>p. \<lparr>frame_count = 25,
              seek_read = (\<lambda>i. if i = 6 then Inl (Exception ''cv2.error'') else Inr (Some i))\<rparr>)\<rparr>"

text \<open>The same invocation on a full disk: writing the temporary video file raises.\<close>

definition full_disk_env :: "(int, int) env" where
  "full_disk_env =
     example_env\<lparr>fs_error :=
       (\<lambda>op. if op = Write ''/tmp/tmpvideo.mp4''
             then Some (Exception ''[Errno 28] No space left on device'') else None)\<rparr>"

text \<open>The same invocation with an output file that cannot be opened.\<close>

definition read_only_env :: "(int, int) env" where
  "read_only_env =
     example_env\<lparr>fs_error :=
       (\<lambda>op. if op = OpenWrite ''analysis_results/analysis_20240501_102030.json''
             then Some (Exception ''[Errno 13] Permission denied'') else None)\<rparr>"

text \<open>The same invocation with a file in which OpenCV finds no frame.\<close>

definition no_frames_env :: "(int, int) env" where
  "no_frames_env =
     example_env\<lparr>video_at := (\<lambda>p. \<lparr>frame_count = 0, seek_read = (\<lambda>i. Inr None)\<rparr>)\<rparr>"

text \<open>
  The same invocation with a waveform of three samples that is not silent, and a librosa
  that computes the RMS energy and the zero-crossing rate as the specification describes
  them, with windows of 2048 samples every 512 samples.
\<close>

definition three_samples_env :: "(int, int) env" where
  "three_samples_env =
     example_env\<lparr>librosa_load := (\<lambda>p. Inr ([1 / 2, - 1 / 2, 1 / 4], 22050)),
       rms_mean := (\<lambda>y. Inr (round_down (spec_rms_mean 2048 512 (map of_rat y)))),
       zcr_mean := (\<lambda>y. Inr (round_down (spec_zcr_mean 2048 512 (map of_rat y))))\<rparr>"

section \<open>Properties\<close>

subsection \<open>The frame sampler against its specification\<close>

lemma py_range_closed:
  "0 < step \<Longrightarrow> py_range i stop step =
     map (\<lambda>k. i + int k * step) [0..<nat ((stop - i + step - 1) div step)]"
proof (induction i stop step rule: py_range.induct)
  case (1 i stop step)
  show ?case
  proof (cases "i < stop")
    case True
    have pos: "0 < (stop - i + step - 1) div step"
      using True 1(2) by (simp add: pos_imp_zdiv_pos_iff)
    have eq: "(stop - (i + step) + step - 1) div step = (stop - i + step - 1) div step - 1"
    proof -
      have "stop - i + step - 1 = (stop - (i + step) + step - 1) + 1 * step" by simp
      then show ?thesis using 1(2)
        by (metis add_diff_cancel_right' div_add_self2 less_irrefl mult_1)
    qed
    obtain n where n: "nat ((stop - i + step - 1) div step) = Suc n"
      using pos by (metis Suc_pred' zero_less_nat_eq)
    have n': "nat ((stop - (i + step) + step - 1) div step) = n"
      using eq n by simp
    have "py_range i stop step = i # py_range (i + step) stop step"
      using True 1(2) by (simp add: py_range.simps [of i])
    also have "\<dots> = i # map (\<lambda>k. i + step + int k * step) [0..<n]"
      using 1(1) True 1(2) n' by simp
    also have "\<dots> = map (\<lambda>k. i + int k * step) [0..<Suc n]"
      by (simp add: upt_rec [of 0] map_Suc_upt [symmetric] algebra_simps del: upt_Suc)
    finally show ?thesis using n by simp
  next
    case False
    then have "(stop - i + step - 1) div step \<le> (step - 1) div step"
      using 1(2) by (intro zdiv_mono1) auto
    then have "(stop - i + step - 1) div step \<le> 0"
      using 1(2) by (simp add: div_pos_pos_trivial)
    then show ?thesis using False by (simp add: py_range.simps [of i])
  qed
qed

lemma sample_loop_take:
  "0 < C \<Longrightarrow> int (length acc) < C \<Longrightarrow> \<forall>i\<in>set is. \<not> raises v i \<Longrightarrow>
   sample_loop (seek_read v) C is acc = Inr (take (nat C) (acc @ List.map_filter (frame_at v) is))"
proof (induction "is" arbitrary: acc)
  case Nil
  then show ?case by simp
next
  case (Cons i rest)
  from Cons.prems(3) obtain r where r: "seek_read v i = Inr r"
    by (cases "seek_read v i") (auto simp: raises_def)
  have rest: "\<forall>i\<in>set rest. \<not> raises v i" using Cons.prems(3) by simp
  show ?case
  proof (cases r)
    case None
    then have "frame_at v i = None" using r by (simp add: frame_at_def)
    then show ?thesis
      using Cons.IH [OF Cons.prems(1) Cons.prems(2) rest] Cons.prems(2) r None
      by simp
  next
    case (Some frame)
    then have fa: "frame_at v i = Some frame" using r by (simp add: frame_at_def)
    show ?thesis
    proof (cases "C \<le> int (length (acc @ [frame]))")
      case True
      then have "nat C = Suc (length acc)" using Cons.prems(2) by simp
      then show ?thesis using r Some fa True
        by simp
    next
      case False
      then have lt: "int (length (acc @ [frame])) < C" by simp
      show ?thesis
        using Cons.IH [OF Cons.prems(1) lt rest] r Some fa False
        by simp
    qed
  qed
qed


lemma take_map_filter:
  "take n (List.map_filter g xs) = List.map_filter g (take n (filter (\<lambda>x. g x \<noteq> None) xs))"
proof -
  have "filter (\<lambda>x. g x \<noteq> None) (take n (filter (\<lambda>x. g x \<noteq> None) xs))
          = take n (filter (\<lambda>x. g x \<noteq> None) xs)"
    by (rule filter_True) (auto dest: in_set_takeD)
  then show ?thesis
    unfolding List.map_filter_def take_map by simp
qed

lemma decodes_frame_at: "decodes v i = (frame_at v i \<noteq> None)"
  by (auto simp: decodes_def frame_at_def split: sum.splits option.splits)

lemma length_map_filter_all:
  "\<forall>x\<in>set xs. g x \<noteq> None \<Longrightarrow> length (List.map_filter g xs) = length xs"
  by (simp add: List.map_filter_def)

lemma sorted_multiples:
  "0 < (s::int) \<Longrightarrow> sorted_wrt (<) (map (\<lambda>k. int k * s) [0..<n])"
  by (simp add: sorted_wrt_map sorted_wrt_iff_nth_less)

lemma sample_frames_spec:
  assumes C: "0 < C" and nr: "\<forall>i. \<not> raises v i"
  shows "sample_frames v C =
           Inr (List.map_filter (frame_at v) (spec_sample_indices (frame_count v) C (decodes v)))"
proof -
  let ?s = "max 1 (frame_count v div C)"
  have s: "0 < ?s" by simp
  have "sample_frames v C = sample_loop (seek_read v) C (py_range 0 (frame_count v) ?s) []"
    using C by (simp add: sample_frames_def Let_def)
  also have "\<dots> = Inr (take (nat C) ([] @ List.map_filter (frame_at v) (py_range 0 (frame_count v) ?s)))"
    using C nr by (intro sample_loop_take) auto
  also have "\<dots> = Inr (List.map_filter (frame_at v) (spec_sample_indices (frame_count v) C (decodes v)))"
  proof -
    have d: "decodes v = (\<lambda>i. frame_at v i \<noteq> None)"
      by (rule ext) (rule decodes_frame_at)
    show ?thesis
      unfolding spec_sample_indices_def Let_def py_range_closed [OF s] d
      by (simp only: take_map_filter append_Nil diff_zero add_0)
  qed
  finally show ?thesis .
qed

lemma spec_indices_props:
  assumes C: "0 < C"
  shows "int (length (spec_sample_indices T C ok)) \<le> C"
    and "sorted_wrt (<) (spec_sample_indices T C ok)"
    and "\<forall>i\<in>set (spec_sample_indices T C ok). ok i \<and> 0 \<le> i \<and> i < T \<and> (\<exists>k. i = int k * max 1 (T div C))"
proof -
  let ?s = "max 1 (T div C)"
  let ?n = "nat ((T + ?s - 1) div ?s)"
  let ?all = "map (\<lambda>k. int k * ?s) [0..<?n]"
  have s: "0 < ?s" by simp
  show "int (length (spec_sample_indices T C ok)) \<le> C"
    using C by (simp add: spec_sample_indices_def Let_def)
  have "sorted_wrt (<) (filter ok ?all)"
    using sorted_multiples [OF s] by (rule sorted_wrt_filter)
  then show "sorted_wrt (<) (spec_sample_indices T C ok)"
    unfolding spec_sample_indices_def Let_def by (rule sorted_wrt_take)
  have bound: "int k * ?s < T" if "k < ?n" for k
  proof -
    from that have "int k < (T + ?s - 1) div ?s" by linarith
    then have "int k + 1 \<le> (T + ?s - 1) div ?s" by simp
    then have "(int k + 1) * ?s \<le> (T + ?s - 1) div ?s * ?s"
      using s by (simp add: mult_right_mono)
    also have "\<dots> \<le> T + ?s - 1"
      using s by (metis div_mult_mod_eq pos_mod_sign add_increasing2 order_refl)
    finally show ?thesis by (simp add: algebra_simps)
  qed
  show "\<forall>i\<in>set (spec_sample_indices T C ok). ok i \<and> 0 \<le> i \<and> i < T \<and> (\<exists>k. i = int k * ?s)"
  proof
    fix i assume "i \<in> set (spec_sample_indices T C ok)"
    then have "i \<in> set (filter ok ?all)"
      unfolding spec_sample_indices_def Let_def by (rule in_set_takeD)
    then obtain k where "k < ?n" "i = int k * ?s" "ok i" by auto
    then show "ok i \<and> 0 \<le> i \<and> i < T \<and> (\<exists>k. i = int k * ?s)"
      using bound [of k] s by auto
  qed
qed

lemma spec_indices_100:
  "spec_sample_indices 100 10 (\<lambda>i. True) = [0, 10, 20, 30, 40, 50, 60, 70, 80, 90]"
  by code_simp

text \<open>
  C1. With a cap \<open>C\<close> of at least one frame and a capture whose seeks and reads do not
  raise, \<^verbatim>\<open>extract_frames\<close> returns the frames at the indices the specification names: the
  multiples \<open>0, interval, 2 * interval, ...\<close> below the frame count \<open>T\<close>, with
  \<open>interval = max 1 (T div C)\<close>, in this order, without those that do not decode, cut at
  \<open>C\<close>. One frame comes back per such index, there are at most \<open>C\<close> of them, and the
  indices increase strictly. For \<open>T = 100\<close> and \<open>C = 10\<close>, every frame decoding, the indices
  are \<open>0, 10, ..., 90\<close>.
\<close>

theorem extract_frames_sampling:
  assumes "0 < C" and "\<forall>i. \<not> raises (video_at env p) i"
  shows "fst (extract_frames env p C w) =
           Inr (List.map_filter (frame_at (video_at env p))
                  (spec_sample_indices (frame_count (video_at env p)) C (decodes (video_at env p))))
       \<and> length (List.map_filter (frame_at (video_at env p))
                  (spec_sample_indices (frame_count (video_at env p)) C (decodes (video_at env p))))
           = length (spec_sample_indices (frame_count (video_at env p)) C (decodes (video_at env p)))
       \<and> int (length (spec_sample_indices (frame_count (video_at env p)) C (decodes (video_at env p)))) \<le> C
       \<and> sorted_wrt (<) (spec_sample_indices (frame_count (video_at env p)) C (decodes (video_at env p)))
       \<and> (\<forall>i\<in>set (spec_sample_indices (frame_count (video_at env p)) C (decodes (video_at env p))).
             decodes (video_at env p) i \<and> 0 \<le> i \<and> i < frame_count (video_at env p)
             \<and> (\<exists>k. i = int k * max 1 (frame_count (video_at env p) div C)))
       \<and> (frame_count (video_at env p) = 100 \<and> C = 10 \<and> (\<forall>i. decodes (video_at env p) i)
            \<longrightarrow> spec_sample_indices (frame_count (video_at env p)) C (decodes (video_at env p))
                  = [0, 10, 20, 30, 40, 50, 60, 70, 80, 90])"
proof -
  let ?v = "video_at env p"
  let ?idxs = "spec_sample_indices (frame_count ?v) C (decodes ?v)"
  have props: "\<forall>i\<in>set ?idxs. decodes ?v i \<and> 0 \<le> i \<and> i < frame_count ?v
                 \<and> (\<exists>k. i = int k * max 1 (frame_count ?v div C))"
    using spec_indices_props(3) [OF assms(1)] .
  have "fst (extract_frames env p C w) = sample_frames ?v C"
    by (simp add: extract_frames_def Let_def split: sum.splits)
  then have 1: "fst (extract_frames env p C w) = Inr (List.map_filter (frame_at ?v) ?idxs)"
    using sample_frames_spec [OF assms] by simp
  have 2: "length (List.map_filter (frame_at ?v) ?idxs) = length ?idxs"
    using props by (intro length_map_filter_all) (simp add: decodes_frame_at)
  have 3: "spec_sample_indices (frame_count ?v) C (decodes ?v)
             = [0, 10, 20, 30, 40, 50, 60, 70, 80, 90]"
    if "frame_count ?v = 100 \<and> C = 10 \<and> (\<forall>i. decodes ?v i)"
  proof -
    have "decodes ?v = (\<lambda>i. True)" using that by auto
    then show ?thesis using that spec_indices_100 by simp
  qed
  show ?thesis
    using 1 2 3 props spec_indices_props(1,2) [OF assms(1)] by blast
qed

theorem extract_frames_sampling_witness:
  "(0::int) < 10
   \<and> (\<forall>i. \<not> raises (video_at example_env ''/tmp/tmpvideo.mp4'') i)
   \<and> fst (extract_frames example_env ''/tmp/tmpvideo.mp4'' 10 empty_world)
       = Inr [0, 2, 6, 8, 10, 12, 14, 16, 18, 20]
   \<and> (\<forall>i. \<not> raises (video_at hundred_frames_env ''/tmp/tmpvideo.mp4'') i)
   \<and> frame_count (video_at hundred_frames_env ''/tmp/tmpvideo.mp4'') = 100
   \<and> (\<forall>i. decodes (video_at hundred_frames_env ''/tmp/tmpvideo.mp4'') i)
   \<and> fst (extract_frames hundred_frames_env ''/tmp/tmpvideo.mp4'' 10 empty_world)
       = Inr [0, 10, 20, 30, 40, 50, 60, 70, 80, 90]"
proof -
  have c: "(0::int) < 10" by simp
  have nr: "\<forall>i. \<not> raises (video_at example_env ''/tmp/tmpvideo.mp4'') i"
    by (simp add: raises_def example_env_def)
  have v: "video_at example_env ''/tmp/tmpvideo.mp4''
             = \<lparr>frame_count = 25, seek_read = (\<lambda>i. if i = 4 then Inr None else Inr (Some i))\<rparr>"
    by (simp add: example_env_def)
  have idxs: "List.map_filter (frame_at (video_at example_env ''/tmp/tmpvideo.mp4''))
                (spec_sample_indices (frame_count (video_at example_env ''/tmp/tmpvideo.mp4'')) 10
                   (decodes (video_at example_env ''/tmp/tmpvideo.mp4'')))
              = [0, 2, 6, 8, 10, 12, 14, 16, 18, 20]"
    unfolding v by code_simp
  have a: "fst (extract_frames example_env ''/tmp/tmpvideo.mp4'' 10 empty_world)
             = Inr [0, 2, 6, 8, 10, 12, 14, 16, 18, 20]"
    using extract_frames_sampling [OF c nr, of empty_world] by (simp only: idxs simp_thms)
  have nr': "\<forall>i. \<not> raises (video_at hundred_frames_env ''/tmp/tmpvideo.mp4'') i"
    by (simp add: raises_def hundred_frames_env_def)
  have t: "frame_count (video_at hundred_frames_env ''/tmp/tmpvideo.mp4'') = 100"
    by (simp add: hundred_frames_env_def)
  have d: "\<forall>i. decodes (video_at hundred_frames_env ''/tmp/tmpvideo.mp4'') i"
    by (simp add: decodes_def hundred_frames_env_def)
  have f: "List.map_filter (frame_at (video_at hundred_frames_env ''/tmp/tmpvideo.mp4''))
             [0, 10, 20, 30, 40, 50, 60, 70, 80, 90] = [0, 10, 20, 30, 40, 50, 60, 70, 80, 90]"
    by (simp add: frame_at_def hundred_frames_env_def List.map_filter_simps)
  have b: "fst (extract_frames hundred_frames_env ''/tmp/tmpvideo.mp4'' 10 empty_world)
             = Inr [0, 10, 20, 30, 40, 50, 60, 70, 80, 90]"
    using extract_frames_sampling [OF c nr', of empty_world] t d f by simp
  show ?thesis using c nr a nr' t d b by blast
qed

subsection \<open>What can be written to the report file\<close>

lemma utf8_char_Some_iff: "(utf8_char c \<noteq> None) = scalar_value c"
  by (simp add: utf8_char_def scalar_value_def)

lemma utf8_encode_Some_iff: "(utf8_encode s \<noteq> None) = list_all scalar_value s"
  by (induction s) (auto simp: utf8_char_Some_iff [symmetric] split: option.splits)

lemma scalar_of_char: "scalar_value (of_char c)"
proof -
  have "of_char c < (256::nat)" by simp
  then show ?thesis unfolding scalar_value_def by linarith
qed

lemma scalar_ascii: "list_all scalar_value (ascii s)"
  by (simp add: ascii_def list_all_iff scalar_of_char)

lemma scalar_hex_digit: "scalar_value (hex_digit (c mod 16))" "c < 32 \<Longrightarrow> scalar_value (hex_digit (c div 16))"
  by (auto simp: scalar_value_def hex_digit_def)

lemma scalar_escape_char: "list_all scalar_value (escape_char c) = scalar_value c"
  by (auto simp: escape_char_def scalar_hex_digit) (auto simp: scalar_value_def)

lemma scalar_basestring: "list_all scalar_value (encode_basestring s) = list_all scalar_value s"
proof -
  have q: "scalar_value 34" by (simp add: scalar_value_def)
  have "list_all scalar_value (concat (map escape_char s)) = list_all scalar_value s"
    by (induction s) (simp_all add: scalar_escape_char)
  then show ?thesis by (simp add: encode_basestring_def q)
qed

lemma scalar_json_dumps:
  "list_all scalar_value (json_dumps r) =
     (list_all scalar_value (timestamp r)
      \<and> (case video_analysis r of None \<Rightarrow> True | Some s \<Rightarrow> list_all scalar_value s)
      \<and> (case audio_analysis r of None \<Rightarrow> True | Some s \<Rightarrow> list_all scalar_value s))"
  by (simp add: json_dumps_def encode_value_def scalar_basestring scalar_ascii split: option.splits)


lemma save_results_ok:
  "fs_error env (OpenWrite (output_file env)) = None \<Longrightarrow> list_all scalar_value (json_dumps r) \<Longrightarrow>
   \<exists>data. utf8_encode (json_dumps r) = Some data \<and>
     save_results env r w = (Inr (output_file env),
        w\<lparr>stored := (output_file env, data) # stored w,
          logs := logs w @ [''Results saved to '' @ output_file env]\<rparr>)"
  using utf8_encode_Some_iff [of "json_dumps r"]
  by (auto simp: save_results_def)

lemma save_results_fails:
  "fs_error env (OpenWrite (output_file env)) = Some e \<Longrightarrow> save_results env r w = (Inl e, w)"
  by (simp add: save_results_def)

text \<open>
  C5. With neither a video nor an audio file, no message is sent to the inference service,
  and \<^verbatim>\<open>analyze_content\<close> returns the report with its timestamp and both analyses
  \<^verbatim>\<open>None\<close>. The report comes back when the output file can be opened: \<^verbatim>\<open>save_results\<close>
  runs on this path too.
\<close>

theorem no_inputs_empty_report:
  assumes "fs_error env (OpenWrite (output_file env)) = None"
  shows "fst (analyze_content env None None w)
           = Report \<lparr>timestamp = ascii (now_iso env), video_analysis = None, audio_analysis = None\<rparr>
       \<and> calls (snd (analyze_content env None None w)) = calls w"
proof -
  let ?r = "\<lparr>timestamp = ascii (now_iso env), video_analysis = None, audio_analysis = None\<rparr>"
  have "list_all scalar_value (json_dumps ?r)"
    by (simp add: scalar_json_dumps scalar_ascii)
  from save_results_ok [OF assms this, of w] obtain data where
    "save_results env ?r w = (Inr (output_file env),
        w\<lparr>stored := (output_file env, data) # stored w,
          logs := logs w @ [''Results saved to '' @ output_file env]\<rparr>)" by blast
  then show ?thesis
    by (simp add: analyze_content_def analyze_content_try_def video_block_def audio_block_def)
qed


theorem no_inputs_empty_report_witness:
  "fs_error example_env (OpenWrite (output_file example_env)) = None
   \<and> fst (analyze_content example_env None None empty_world)
       = Report \<lparr>timestamp = ascii ''2024-05-01T10:20:30.123456'', video_analysis = None,
                 audio_analysis = None\<rparr>
   \<and> calls (snd (analyze_content example_env None None empty_world)) = []"
proof -
  have fs: "fs_error example_env (OpenWrite (output_file example_env)) = None"
    by (simp add: example_env_def)
  have n: "now_iso example_env = ''2024-05-01T10:20:30.123456''"
    by (simp add: example_env_def)
  have c: "calls empty_world = []" by (simp add: empty_world_def)
  show ?thesis
    using no_inputs_empty_report [OF fs, of empty_world] fs unfolding n c by blast
qed

subsection \<open>The branches and the orchestrator\<close>

lemma extract_frames_fst: "fst (extract_frames env p C w) = sample_frames (video_at env p) C"
  by (simp add: extract_frames_def Let_def split: sum.splits)

lemma analyze_video_try_fst:
  "fst (analyze_video_try env p w) =
     (case sample_frames (video_at env p) 10 of
        Inl e \<Rightarrow> Inl e
      | Inr frames \<Rightarrow>
          (case convert_all (convert env) frames of
             Inl e \<Rightarrow> Inl e
           | Inr imgs \<Rightarrow> generate env (Parts video_prompt (take 10 imgs))))"
  by (simp add: analyze_video_try_def extract_frames_def Let_def split: sum.splits)

lemma analyze_video_fst:
  "fst (analyze_video env p w) =
     (case fst (analyze_video_try env p w) of Inl e \<Rightarrow> None | Inr text \<Rightarrow> Some text)"
  by (simp add: analyze_video_def split: prod.splits sum.splits)

lemma analyze_audio_try_fst:
  "fst (analyze_audio_try env p w) =
     (case extract_audio_features env p of
        Inl e \<Rightarrow> Inl e
      | Inr f \<Rightarrow> generate env (Text (audio_prompt f)))"
  by (simp add: analyze_audio_try_def Let_def split: sum.splits)

lemma analyze_audio_fst:
  "fst (analyze_audio env p w) =
     (case fst (analyze_audio_try env p w) of Inl e \<Rightarrow> None | Inr text \<Rightarrow> Some text)"
  by (simp add: analyze_audio_def split: prod.splits sum.splits)

lemma video_block_ok:
  assumes "fs_error env (Create (tmp_video env)) = None"
      and "fs_error env (Write (tmp_video env)) = None"
      and "fs_error env (Unlink (tmp_video env)) = None"
  shows "fst (video_block env (Some (Inr data)) r w)
           = Inr (r\<lparr>video_analysis :=
                    (case fst (analyze_video_try env (tmp_video env) w) of
                       Inl e \<Rightarrow> None | Inr text \<Rightarrow> Some text)\<rparr>)"
proof -
  let ?w2 = "w\<lparr>logs := logs w @ [''Analyzing video...''],
               tmp_files := tmp_files w @ [tmp_video env]\<rparr>"
  obtain va w3 where a: "analyze_video env (tmp_video env) ?w2 = (va, w3)"
    by (cases "analyze_video env (tmp_video env) ?w2")
  have "va = fst (analyze_video env (tmp_video env) ?w2)" using a by simp
  then have "va = (case fst (analyze_video_try env (tmp_video env) w) of
                     Inl e \<Rightarrow> None | Inr text \<Rightarrow> Some text)"
    by (simp add: analyze_video_fst analyze_video_try_fst)
  then show ?thesis using assms a by (simp add: video_block_def Let_def)
qed

lemma audio_block_ok:
  assumes "fs_error env (Create (tmp_audio env)) = None"
      and "fs_error env (Write (tmp_audio env)) = None"
      and "fs_error env (Unlink (tmp_audio env)) = None"
  shows "fst (audio_block env (Some (Inr data)) r w)
           = Inr (r\<lparr>audio_analysis :=
                    (case fst (analyze_audio_try env (tmp_audio env) w) of
                       Inl e \<Rightarrow> None | Inr text \<Rightarrow> Some text)\<rparr>)"
proof -
  let ?w2 = "w\<lparr>logs := logs w @ [''Analyzing audio...''],
               tmp_files := tmp_files w @ [tmp_audio env]\<rparr>"
  obtain aa w3 where a: "analyze_audio env (tmp_audio env) ?w2 = (aa, w3)"
    by (cases "analyze_audio env (tmp_audio env) ?w2")
  have "aa = fst (analyze_audio env (tmp_audio env) ?w2)" using a by simp
  then have "aa = (case fst (analyze_audio_try env (tmp_audio env) w) of
                     Inl e \<Rightarrow> None | Inr text \<Rightarrow> Some text)"
    by (simp add: analyze_audio_fst analyze_audio_try_fst)
  then show ?thesis using assms a by (simp add: audio_block_def Let_def)
qed

lemma block_absent:
  "video_block env None r w = (Inr r, w)" "audio_block env None r w = (Inr r, w)"
  by (simp_all add: video_block_def audio_block_def)


lemma analyze_content_fst:
  "fst (analyze_content env vf af w) =
     (case fst (analyze_content_try env vf af w) of
        Inr r \<Rightarrow> Report r | Inl e \<Rightarrow> ErrorResult (str e))"
  by (simp add: analyze_content_def split: prod.splits sum.splits)


lemma sample_frames_raising:
  "sample_frames \<lparr>frame_count = 25,
              seek_read = (\<lambda>i. if i = 6 then Inl (Exception ''cv2.error'') else Inr (Some i))\<rparr> 10
     = Inl (Exception ''cv2.error'')"
  by code_simp

lemma example_features:
  "extract_audio_features example_env p
     = Inr \<lparr>duration = 3, rms_energy = 0, spectral_centroid = 0, zero_crossing_rate = 0\<rparr>"
  by (simp add: extract_audio_features_def example_env_def)

lemma scalar_bengali: "list_all scalar_value bengali_text"
  by (simp add: bengali_text_def scalar_value_def)

lemma save_results_world:
  "open_caps (snd (save_results env r w)) = open_caps w"
  "tmp_files (snd (save_results env r w)) = tmp_files w"
  "calls (snd (save_results env r w)) = calls w"
  by (simp_all add: save_results_def split: option.splits)

lemma analyze_content_try_save_fails:
  assumes "fs_error env (OpenWrite (output_file env)) = Some e"
  shows "\<exists>e'. fst (analyze_content_try env vf af w) = Inl e'"
  using assms
  by (auto simp: analyze_content_try_def save_results_fails split: prod.splits sum.splits)

lemma stored_analyze_video: "stored (snd (analyze_video env p w)) = stored w"
  by (simp add: analyze_video_def analyze_video_try_def extract_frames_def Let_def
      split: prod.splits sum.splits)

lemma stored_analyze_audio: "stored (snd (analyze_audio env p w)) = stored w"
  by (simp add: analyze_audio_def analyze_audio_try_def Let_def split: prod.splits sum.splits)

lemma stored_video_block: "stored (snd (video_block env vf r w)) = stored w"
proof (cases vf)
  case None
  then show ?thesis by (simp add: video_block_def)
next
  case (Some u)
  let ?w2 = "w\<lparr>logs := logs w @ [''Analyzing video...''],
               tmp_files := tmp_files w @ [tmp_video env]\<rparr>"
  obtain va w3 where a: "analyze_video env (tmp_video env) ?w2 = (va, w3)"
    by (cases "analyze_video env (tmp_video env) ?w2")
  have "stored w3 = stored w" using stored_analyze_video [of env "tmp_video env" ?w2] a by simp
  then show ?thesis using Some a
    by (simp add: video_block_def Let_def split: option.splits sum.splits)
qed

lemma stored_audio_block: "stored (snd (audio_block env af r w)) = stored w"
proof (cases af)
  case None
  then show ?thesis by (simp add: audio_block_def)
next
  case (Some u)
  let ?w2 = "w\<lparr>logs := logs w @ [''Analyzing audio...''],
               tmp_files := tmp_files w @ [tmp_audio env]\<rparr>"
  obtain va w3 where a: "analyze_audio env (tmp_audio env) ?w2 = (va, w3)"
    by (cases "analyze_audio env (tmp_audio env) ?w2")
  have "stored w3 = stored w" using stored_analyze_audio [of env "tmp_audio env" ?w2] a by simp
  then show ?thesis using Some a
    by (simp add: audio_block_def Let_def split: option.splits sum.splits)
qed










text \<open>
  C3. \<^verbatim>\<open>analyze_content\<close> returns a value on every path: an exception of its body comes
  back as \<^verbatim>\<open>{"error": str(e)}\<close>. When the output file cannot be opened the result is such
  an error value and never a report, nothing is stored, and when the temporary files can be
  handled and the uploads can be read (whatever happens inside the two branches) the error
  text is the text of the persistence exception.
\<close>

theorem persistence_failure_is_error_result:
  assumes save: "fs_error env (OpenWrite (output_file env)) = Some e"
  shows "fst (analyze_content env vf af w)
           = (case fst (analyze_content_try env vf af w) of
                Inr r \<Rightarrow> Report r | Inl e' \<Rightarrow> ErrorResult (str e'))
       \<and> (\<exists>m. fst (analyze_content env vf af w) = ErrorResult m)
       \<and> ((\<forall>p. fs_error env (Create p) = None \<and> fs_error env (Write p) = None
                \<and> fs_error env (Unlink p) = None)
            \<and> (\<forall>x. vf \<noteq> Some (Inl x)) \<and> (\<forall>x. af \<noteq> Some (Inl x))
          \<longrightarrow> fst (analyze_content env vf af w) = ErrorResult (str e))
       \<and> stored (snd (analyze_content env vf af w)) = stored w"
proof (intro conjI impI)
  show "fst (analyze_content env vf af w)
           = (case fst (analyze_content_try env vf af w) of
                Inr r \<Rightarrow> Report r | Inl e' \<Rightarrow> ErrorResult (str e'))"
    by (rule analyze_content_fst)
next
  show "\<exists>m. fst (analyze_content env vf af w) = ErrorResult m"
    using analyze_content_try_save_fails [OF save, of vf af w]
    by (auto simp: analyze_content_fst)
next
  assume ok: "(\<forall>p. fs_error env (Create p) = None \<and> fs_error env (Write p) = None
                \<and> fs_error env (Unlink p) = None)
            \<and> (\<forall>x. vf \<noteq> Some (Inl x)) \<and> (\<forall>x. af \<noteq> Some (Inl x))"
  let ?r0 = "\<lparr>timestamp = ascii (now_iso env), video_analysis = None, audio_analysis = None\<rparr>"
  obtain x1 w1 where vb: "video_block env vf ?r0 w = (x1, w1)"
    by (cases "video_block env vf ?r0 w")
  have "\<exists>r1. fst (video_block env vf ?r0 w) = Inr r1"
  proof (cases vf)
    case None
    then show ?thesis by (simp add: block_absent)
  next
    case (Some u)
    then obtain d where "u = Inr d" using ok by (cases u) auto
    then show ?thesis using Some ok by (simp add: video_block_ok)
  qed
  then obtain r1 where x1: "x1 = Inr r1" using vb by auto
  obtain x2 w2 where ab: "audio_block env af r1 w1 = (x2, w2)"
    by (cases "audio_block env af r1 w1")
  have "\<exists>r2. fst (audio_block env af r1 w1) = Inr r2"
  proof (cases af)
    case None
    then show ?thesis by (simp add: block_absent)
  next
    case (Some u)
    then obtain d where "u = Inr d" using ok by (cases u) auto
    then show ?thesis using Some ok by (simp add: audio_block_ok)
  qed
  then obtain r2 where x2: "x2 = Inr r2" using ab by auto
  show "fst (analyze_content env vf af w) = ErrorResult (str e)"
    using vb ab x1 x2 save
    by (simp add: analyze_content_fst analyze_content_try_def save_results_fails)
next
  let ?r0 = "\<lparr>timestamp = ascii (now_iso env), video_analysis = None, audio_analysis = None\<rparr>"
  obtain x1 w1 where vb: "video_block env vf ?r0 w = (x1, w1)"
    by (cases "video_block env vf ?r0 w")
  have s1: "stored w1 = stored w" using stored_video_block [of env vf ?r0 w] vb by simp
  show "stored (snd (analyze_content env vf af w)) = stored w"
  proof (cases x1)
    case (Inl e1)
    then show ?thesis using vb s1
      by (simp add: analyze_content_def analyze_content_try_def)
  next
    case (Inr r1)
    obtain x2 w2 where ab: "audio_block env af r1 w1 = (x2, w2)"
      by (cases "audio_block env af r1 w1")
    have s2: "stored w2 = stored w" using stored_audio_block [of env af r1 w1] ab s1 by simp
    show ?thesis using vb Inr ab s2 save
      by (cases x2) (simp_all add: analyze_content_def analyze_content_try_def save_results_fails)
  qed
qed

theorem persistence_failure_is_error_result_witness:
  "fs_error read_only_env (OpenWrite (output_file read_only_env))
     = Some (Exception ''[Errno 13] Permission denied'')
   \<and> (\<forall>p. fs_error read_only_env (Create p) = None \<and> fs_error read_only_env (Write p) = None
            \<and> fs_error read_only_env (Unlink p) = None)
   \<and> fst (analyze_content read_only_env (Some (Inr [])) (Some (Inr [])) empty_world)
       = ErrorResult ''[Errno 13] Permission denied''
   \<and> stored (snd (analyze_content read_only_env (Some (Inr [])) (Some (Inr [])) empty_world)) = []"
proof -
  have save: "fs_error read_only_env (OpenWrite (output_file read_only_env))
     = Some (Exception ''[Errno 13] Permission denied'')"
    by (simp add: read_only_env_def example_env_def output_file_def)
  have tmp: "\<forall>p. fs_error read_only_env (Create p) = None \<and> fs_error read_only_env (Write p) = None
            \<and> fs_error read_only_env (Unlink p) = None"
    by (simp add: read_only_env_def example_env_def)
  have s: "stored empty_world = []" by (simp add: empty_world_def)
  have ne: "\<forall>x. Some (Inr []) \<noteq> (Some (Inl x) :: upload option)" by simp
  have st: "str (Exception ''[Errno 13] Permission denied'') = ''[Errno 13] Permission denied''"
    by simp
  show ?thesis
    using persistence_failure_is_error_result
            [OF save, of "Some (Inr [])" "Some (Inr [])" empty_world] save tmp ne
    unfolding s st by blast
qed


lemma sample_loop_none:
  "\<forall>i\<in>set is. rd i = Inr None \<Longrightarrow> int (length acc) < C \<Longrightarrow> sample_loop rd C is acc = Inr acc"
  by (induction "is") simp_all

lemma py_range_empty: "stop \<le> i \<Longrightarrow> py_range i stop step = []"
  by (simp add: py_range.simps [of i])

lemma sample_frames_empty:
  assumes "frame_count v \<le> 0 \<or> (\<forall>i. seek_read v i = Inr None)"
  shows "sample_frames v 10 = Inr []"
  using assms
proof
  assume "frame_count v \<le> 0"
  then show ?thesis by (simp add: sample_frames_def py_range_empty)
next
  assume "\<forall>i. seek_read v i = Inr None"
  then show ?thesis by (simp add: sample_frames_def sample_loop_none)
qed

text \<open>
  C10. When the capture reports no frame, or no read returns a frame, \<^verbatim>\<open>extract_frames\<close>
  returns the empty list, and \<^verbatim>\<open>analyze_video\<close> still sends one message, the prompt with
  no image; \<^verbatim>\<open>video_analysis\<close> is the text of the answer when the service answers.
\<close>

theorem no_frames_text_only:
  assumes "frame_count (video_at env p) \<le> 0 \<or> (\<forall>i. seek_read (video_at env p) i = Inr None)"
  shows "fst (extract_frames env p 10 w) = Inr []
       \<and> calls (snd (analyze_video env p w)) = calls w @ [Parts video_prompt []]
       \<and> fst (analyze_video env p w)
           = (case generate env (Parts video_prompt []) of Inl e \<Rightarrow> None | Inr text \<Rightarrow> Some text)"
proof -
  have s: "sample_frames (video_at env p) 10 = Inr []"
    using assms by (rule sample_frames_empty)
  show ?thesis
    by (simp add: extract_frames_def analyze_video_def analyze_video_try_def s Let_def
        split: sum.splits)
qed

theorem no_frames_text_only_witness:
  "frame_count (video_at no_frames_env ''/tmp/tmpvideo.mp4'') \<le> 0
   \<and> fst (extract_frames no_frames_env ''/tmp/tmpvideo.mp4'' 10 empty_world) = Inr []
   \<and> calls (snd (analyze_video no_frames_env ''/tmp/tmpvideo.mp4'' empty_world))
       = [Parts video_prompt []]
   \<and> fst (analyze_video no_frames_env ''/tmp/tmpvideo.mp4'' empty_world) = Some bengali_text"
proof -
  have z: "frame_count (video_at no_frames_env ''/tmp/tmpvideo.mp4'') \<le> 0"
    by (simp add: no_frames_env_def)
  have g: "generate no_frames_env (Parts video_prompt []) = Inr bengali_text"
    by (simp add: no_frames_env_def example_env_def)
  have c: "calls empty_world = []" by (simp add: empty_world_def)
  show ?thesis
    using no_frames_text_only [OF disjI1 [OF z], of empty_world] z
    unfolding g c by simp
qed

lemma sample_frames_example:
  "sample_frames \<lparr>frame_count = 25,
              seek_read = (\<lambda>i. if i = 4 then Inr None else Inr (Some i))\<rparr> 10
     = Inr [0, 2, 6, 8, 10, 12, 14, 16, 18, 20]"
  by code_simp

lemma example_env_fields:
  "now_iso example_env = ''2024-05-01T10:20:30.123456''"
  "tmp_video example_env = ''/tmp/tmpvideo.mp4''"
  "fs_error example_env op = None"
  "video_at example_env p
     = \<lparr>frame_count = 25, seek_read = (\<lambda>i. if i = 4 then Inr None else Inr (Some i))\<rparr>"
  "convert example_env frame = Inr frame"
  "generate example_env msg = Inr bengali_text"
  by (simp_all add: example_env_def)

lemma raising_video_env_fields:
  "now_iso raising_video_env = ''2024-05-01T10:20:30.123456''"
  "tmp_video raising_video_env = ''/tmp/tmpvideo.mp4''"
  "fs_error raising_video_env op = None"
  "video_at raising_video_env p
     = \<lparr>frame_count = 25,
        seek_read = (\<lambda>i. if i = 6 then Inl (Exception ''cv2.error'') else Inr (Some i))\<rparr>"
  by (simp_all add: raising_video_env_def example_env_def)

lemma full_disk_env_fields:
  "now_iso full_disk_env = ''2024-05-01T10:20:30.123456''"
  "tmp_video full_disk_env = ''/tmp/tmpvideo.mp4''"
  "fs_error full_disk_env (Create p) = None"
  "fs_error full_disk_env (Write ''/tmp/tmpvideo.mp4'')
     = Some (Exception ''[Errno 28] No space left on device'')"
  by (simp_all add: full_disk_env_def example_env_def)

lemma convert_all_Inr: "convert_all Inr xs = Inr xs"
  by (induction xs) simp_all

lemma save_results_after:
  assumes "fs_error env (OpenWrite (output_file env)) = None"
    and "list_all scalar_value (json_dumps r)"
    and "analyze_content_try env vf af w0 = (case save_results env r w of
           (Inl e, w3) \<Rightarrow> (Inl e, w3) | (Inr file, w3) \<Rightarrow> (Inr r, w3))"
  shows "fst (analyze_content env vf af w0) = Report r"
    and "open_caps (snd (analyze_content env vf af w0)) = open_caps w"
    and "tmp_files (snd (analyze_content env vf af w0)) = tmp_files w"
proof -
  from save_results_ok [OF assms(1,2), of w] obtain data where
    "save_results env r w = (Inr (output_file env),
        w\<lparr>stored := (output_file env, data) # stored w,
          logs := logs w @ [''Results saved to '' @ output_file env]\<rparr>)" by blast
  then have "analyze_content env vf af w0 = (Report r,
        w\<lparr>stored := (output_file env, data) # stored w,
          logs := logs w @ [''Results saved to '' @ output_file env]\<rparr>)"
    using assms(3) by (simp add: analyze_content_def)
  then show "fst (analyze_content env vf af w0) = Report r"
    and "open_caps (snd (analyze_content env vf af w0)) = open_caps w"
    and "tmp_files (snd (analyze_content env vf af w0)) = tmp_files w"
    by simp_all
qed

lemma raising_video_run:
  "fst (analyze_content raising_video_env (Some (Inr megabyte_upload)) None empty_world)
     = Report \<lparr>timestamp = ascii ''2024-05-01T10:20:30.123456'', video_analysis = None,
               audio_analysis = None\<rparr>"
  "open_caps (snd (analyze_content raising_video_env (Some (Inr megabyte_upload)) None empty_world))
       = [''/tmp/tmpvideo.mp4'']"
  "tmp_files (snd (analyze_content raising_video_env (Some (Inr megabyte_upload)) None empty_world)) = []"
proof -
  let ?r = "\<lparr>timestamp = ascii ''2024-05-01T10:20:30.123456'', video_analysis = None,
               audio_analysis = None\<rparr>"
  let ?w = "\<lparr>tmp_files = [], open_caps = [''/tmp/tmpvideo.mp4''], calls = [],
             stored = [], logs = [''Analyzing video...'', ''Error in video analysis: cv2.error'']\<rparr>"
  have vb: "video_block raising_video_env (Some (Inr megabyte_upload)) ?r empty_world = (Inr ?r, ?w)"
    by (simp add: video_block_def analyze_video_def analyze_video_try_def extract_frames_def
        raising_video_env_fields empty_world_def sample_frames_raising)
  have t: "analyze_content_try raising_video_env (Some (Inr megabyte_upload)) None empty_world
             = (case save_results raising_video_env ?r ?w of
                  (Inl e, w3) \<Rightarrow> (Inl e, w3) | (Inr file, w3) \<Rightarrow> (Inr ?r, w3))"
    by (simp add: analyze_content_try_def block_absent raising_video_env_fields vb)
  have sc: "list_all scalar_value (json_dumps ?r)"
    by (simp add: scalar_json_dumps scalar_ascii)
  note r = save_results_after [OF raising_video_env_fields(3) sc t]
  show "fst (analyze_content raising_video_env (Some (Inr megabyte_upload)) None empty_world) = Report ?r"
    by (rule r(1))
  show "open_caps (snd (analyze_content raising_video_env (Some (Inr megabyte_upload)) None empty_world))
       = [''/tmp/tmpvideo.mp4'']"
    using r(2) by simp
  show "tmp_files (snd (analyze_content raising_video_env (Some (Inr megabyte_upload)) None empty_world)) = []"
    using r(3) by simp
qed

lemma example_run:
  "open_caps (snd (analyze_content example_env (Some (Inr megabyte_upload)) None empty_world)) = []"
  "tmp_files (snd (analyze_content example_env (Some (Inr megabyte_upload)) None empty_world)) = []"
proof -
  let ?init = "\<lparr>timestamp = ascii ''2024-05-01T10:20:30.123456'', video_analysis = None,
               audio_analysis = None\<rparr>"
  let ?r = "\<lparr>timestamp = ascii ''2024-05-01T10:20:30.123456'', video_analysis = Some bengali_text,
               audio_analysis = None\<rparr>"
  let ?w = "\<lparr>tmp_files = [], open_caps = [],
             calls = [Parts video_prompt [0, 2, 6, 8, 10, 12, 14, 16, 18, 20]],
             stored = [], logs = [''Analyzing video...'']\<rparr>"
  have vb: "video_block example_env (Some (Inr megabyte_upload)) ?init empty_world = (Inr ?r, ?w)"
    by (simp add: video_block_def analyze_video_def analyze_video_try_def extract_frames_def
        example_env_fields empty_world_def sample_frames_example convert_all_Inr [unfolded Inr_def]
        convert_all_Inr)
  have t: "analyze_content_try example_env (Some (Inr megabyte_upload)) None empty_world
             = (case save_results example_env ?r ?w of
                  (Inl e, w3) \<Rightarrow> (Inl e, w3) | (Inr file, w3) \<Rightarrow> (Inr ?r, w3))"
    by (simp add: analyze_content_try_def block_absent example_env_fields vb)
  have sc: "list_all scalar_value (json_dumps ?r)"
    by (simp add: scalar_json_dumps scalar_ascii scalar_bengali)
  note r = save_results_after [OF example_env_fields(3) sc t]
  show "open_caps (snd (analyze_content example_env (Some (Inr megabyte_upload)) None empty_world)) = []"
    using r(2) by simp
  show "tmp_files (snd (analyze_content example_env (Some (Inr megabyte_upload)) None empty_world)) = []"
    using r(3) by simp
qed

lemma full_disk_run:
  "fst (analyze_content full_disk_env (Some (Inr megabyte_upload)) None empty_world)
       = ErrorResult ''[Errno 28] No space left on device''"
  "tmp_files (snd (analyze_content full_disk_env (Some (Inr megabyte_upload)) None empty_world))
       = [''/tmp/tmpvideo.mp4'']"
  by (simp_all add: analyze_content_def analyze_content_try_def video_block_def
      full_disk_env_fields empty_world_def)

text \<open>
  C9 fails on the code. A read that raises at index 6 leaves \<^verbatim>\<open>extract_frames\<close> before
  \<^verbatim>\<open>cap.release()\<close>: the invocation ends with a report and with the capture handle still
  open. A write of the temporary file that raises leaves \<^verbatim>\<open>analyze_content\<close> before
  \<^verbatim>\<open>os.unlink\<close>: the invocation ends with the temporary file still there. The invocation
  in which nothing raises ends with neither.
\<close>

theorem handle_and_temporary_file_survive:
  "fst (analyze_content raising_video_env (Some (Inr megabyte_upload)) None empty_world)
     = Report \<lparr>timestamp = ascii ''2024-05-01T10:20:30.123456'', video_analysis = None,
               audio_analysis = None\<rparr>
   \<and> open_caps (snd (analyze_content raising_video_env (Some (Inr megabyte_upload)) None empty_world))
       = [''/tmp/tmpvideo.mp4'']
   \<and> tmp_files (snd (analyze_content raising_video_env (Some (Inr megabyte_upload)) None empty_world)) = []
   \<and> fst (analyze_content full_disk_env (Some (Inr megabyte_upload)) None empty_world)
       = ErrorResult ''[Errno 28] No space left on device''
   \<and> tmp_files (snd (analyze_content full_disk_env (Some (Inr megabyte_upload)) None empty_world))
       = [''/tmp/tmpvideo.mp4'']
   \<and> open_caps (snd (analyze_content example_env (Some (Inr megabyte_upload)) None empty_world)) = []
   \<and> tmp_files (snd (analyze_content example_env (Some (Inr megabyte_upload)) None empty_world)) = []"
  using raising_video_run full_disk_run example_run by simp

subsection \<open>The audio prompt\<close>

lemma digit_char_in: "d < 10 \<Longrightarrow> digit_char d \<in> set ''0123456789''"
  unfolding digit_char_def by (rule nth_mem) simp

lemma set_show_nat: "set (show_nat n) \<subseteq> set ''0123456789''"
proof (induction n rule: show_nat.induct)
  case (1 n)
  show ?case
  proof (cases "n < 10")
    case True
    then show ?thesis using digit_char_in [of n] by (subst show_nat.simps) simp
  next
    case False
    have "n mod 10 < 10" by simp
    then show ?thesis using False 1 digit_char_in [of "n mod 10"]
      by (subst show_nat.simps) simp
  qed
qed

lemma length_show_nat: "0 < p \<Longrightarrow> n < 10 ^ p \<Longrightarrow> length (show_nat n) \<le> p"
proof (induction n arbitrary: p rule: show_nat.induct)
  case (1 n)
  show ?case
  proof (cases "n < 10")
    case True
    then show ?thesis using 1(2) by (subst show_nat.simps) simp
  next
    case False
    then have "10 \<le> n" by simp
    have "p \<noteq> 1" using 1(3) \<open>10 \<le> n\<close> by auto
    with 1(2) have "1 < p" by linarith
    then obtain q where q: "p = Suc q" "0 < q" by (cases p) auto
    have "n div 10 < 10 ^ q" using 1(3) q by (simp add: less_mult_imp_div_less mult.commute)
    then have "length (show_nat (n div 10)) \<le> q" using 1(1) [OF False q(2)] by simp
    then show ?thesis using False q by (subst show_nat.simps) simp
  qed
qed

lemma dropWhile_upto: "y \<notin> set xs \<Longrightarrow> dropWhile (\<lambda>c. c \<noteq> y) (xs @ y # ys) = y # ys"
  by (induction xs) auto

lemma decimals_format_f: "0 < p \<Longrightarrow> decimals (format_f p x) = p"
proof -
  assume p: "0 < p"
  define n where "n = nat (round_half_even (\<bar>x\<bar> * 10 ^ p))"
  define pre where "pre = (if x < 0 then ''-'' else []) @ show_nat (n div 10 ^ p)"
  define frac where "frac = show_nat (n mod 10 ^ p)"
  have f: "format_f p x = pre @ CHR ''.'' # (replicate (p - length frac) (CHR ''0'') @ frac)"
    using p by (simp add: format_f_def Let_def n_def pre_def frac_def)
  have "CHR ''.'' \<notin> set pre"
    using set_show_nat [of "n div 10 ^ p"] by (auto simp: pre_def)
  then have d: "dropWhile (\<lambda>c. c \<noteq> CHR ''.'') (format_f p x)
                  = CHR ''.'' # (replicate (p - length frac) (CHR ''0'') @ frac)"
    unfolding f by (rule dropWhile_upto)
  have "length frac \<le> p"
    unfolding frac_def using p by (intro length_show_nat) simp_all
  then show ?thesis by (simp add: decimals_def d)
qed

lemma digits_subset: "set ''0123456789'' \<subseteq> set ''-.0123456789''"
  by auto

lemma set_format_f: "set (format_f p x) \<subseteq> set ''-.0123456789''"
proof -
  have 1: "set (show_nat k) \<subseteq> set ''-.0123456789''" for k
    using set_show_nat [of k] digits_subset by (rule subset_trans)
  have 2: "CHR ''-'' \<in> set ''-.0123456789''" "CHR ''.'' \<in> set ''-.0123456789''"
    "CHR ''0'' \<in> set ''-.0123456789''" by simp_all
  show ?thesis
    unfolding format_f_def Let_def using 1 2
    by (simp only: set_append set_replicate_conv_if Un_subset_iff list.set
           insert_subset empty_subsetI if_split simp_thms) auto
qed

lemma format_values: "format_f 2 3 = ''3.00''" "format_f 4 0 = ''0.0000''" "format_f 2 0 = ''0.00''"
  by code_simp+


lemma after_label_skip:
  "label \<noteq> [] \<Longrightarrow> hd label \<notin> set xs \<Longrightarrow> after_label label (xs @ ys) = after_label label ys"
proof (induction xs)
  case Nil
  then show ?case by simp
next
  case (Cons c xs)
  then obtain l ls where l: "label = l # ls" by (cases label) auto
  then have "l \<noteq> c" using Cons.prems(2) by auto
  then have "take (length label) (c # xs @ ys) \<noteq> label" using l by auto
  then show ?case using Cons by simp
qed

lemma after_label_here: "label \<noteq> [] \<Longrightarrow> after_label label (label @ ys) = Some ys"
  by (cases label) simp_all

lemma field_value:
  assumes "label \<noteq> []" and "hd label \<notin> set pre"
    and "CHR '' '' \<notin> set v" and "CHR 0x0A \<notin> set v"
    and "t = CHR '' '' \<or> t = CHR 0x0A"
  shows "field label (pre @ label @ v @ t # rest) = v"
proof -
  have "after_label label (pre @ label @ v @ t # rest) = Some (v @ t # rest)"
    using assms(1,2) by (simp add: after_label_skip after_label_here)
  moreover have "takeWhile (\<lambda>c. c \<noteq> CHR '' '' \<and> c \<noteq> CHR 0x0A) (v @ t # rest) = v"
    using assms(3,4,5) by (induction v) auto
  ultimately show ?thesis by (simp add: field_def)
qed


lemma format_f_no_char:
  "c \<notin> set ''-.0123456789'' \<Longrightarrow> c \<notin> set (format_f p x)"
  using set_format_f [of p x] by blast

lemma format_f_plain:
  "CHR '' '' \<notin> set (format_f p x)" "CHR 0x0A \<notin> set (format_f p x)"
  "CHR ''D'' \<notin> set (format_f p x)" "CHR ''E'' \<notin> set (format_f p x)"
  "CHR ''S'' \<notin> set (format_f p x)" "CHR ''V'' \<notin> set (format_f p x)"
  by (rule format_f_no_char, simp)+

lemma field_duration: "field ''Duration: '' (audio_prompt f) = format_f 2 (duration f)"
proof -
  have "audio_prompt f =
     (''\<newline>'' @
     ''            Analyze these audio characteristics for concerning content:\<newline>'' @
     ''            \<newline>'' @
     ''            Audio Features:\<newline>'' @
     ''            - '') @ ''Duration: '' @ format_f 2 (duration f) @ CHR '' '' #
     (''seconds\<newline>'' @
     ''            - Energy Level: '' @ format_f 4 (rms_energy f) @ ''\<newline>'' @
     ''            - Spectral Features: '' @ format_f 2 (spectral_centroid f) @ ''\<newline>'' @
     ''            - Voice Patterns: '' @ format_f 4 (zero_crossing_rate f) @ ''\<newline>'' @
     ''            \<newline>'' @
     ''            Based on training with Bengali audio content:\<newline>'' @
     ''            1. Identify any concerning speech patterns\<newline>'' @
     ''            2. Detect aggressive or threatening tones\<newline>'' @
     ''            3. Analyze emotional indicators\<newline>'' @
     ''            4. Note any suspicious audio elements\<newline>'' @
     ''            '')"
    by (simp add: audio_prompt_def)
  also have "field ''Duration: '' \<dots> = format_f 2 (duration f)"
    by (rule field_value) (simp_all add: format_f_plain)
  finally show ?thesis .
qed


lemma field_energy: "field ''Energy Level: '' (audio_prompt f) = format_f 4 (rms_energy f)"
proof -
  have "audio_prompt f =
     (''\<newline>'' @
     ''            Analyze these audio characteristics for concerning content:\<newline>'' @
     ''            \<newline>'' @
     ''            Audio Features:\<newline>'' @
     ''            - '' @ ''Duration: '' @ format_f 2 (duration f) @ [CHR '' ''] @
     ''seconds\<newline>'' @
     ''            - '') @ ''Energy Level: '' @ format_f 4 (rms_energy f) @ CHR 0x0A #
     (''            - '' @ ''Spectral Features: '' @ format_f 2 (spectral_centroid f) @ [CHR 0x0A] @
     ''            - '' @ ''Voice Patterns: '' @ format_f 4 (zero_crossing_rate f) @ [CHR 0x0A] @
     ''            \<newline>'' @
     ''            Based on training with Bengali audio content:\<newline>'' @
     ''            1. Identify any concerning speech patterns\<newline>'' @
     ''            2. Detect aggressive or threatening tones\<newline>'' @
     ''            3. Analyze emotional indicators\<newline>'' @
     ''            4. Note any suspicious audio elements\<newline>'' @
     ''            '')"
    by (simp add: audio_prompt_def)
  also have "field ''Energy Level: '' \<dots> = format_f 4 (rms_energy f)"
    by (rule field_value) (simp_all add: format_f_plain)
  finally show ?thesis .
qed

lemma field_centroid: "field ''Spectral Features: '' (audio_prompt f) = format_f 2 (spectral_centroid f)"
proof -
  have "audio_prompt f =
     (''\<newline>'' @
     ''            Analyze these audio characteristics for concerning content:\<newline>'' @
     ''            \<newline>'' @
     ''            Audio Features:\<newline>'' @
     ''            - '' @ ''Duration: '' @ format_f 2 (duration f) @ [CHR '' ''] @
     ''seconds\<newline>'' @
     ''            - '' @ ''Energy Level: '' @ format_f 4 (rms_energy f) @ [CHR 0x0A] @
     ''            - '') @ ''Spectral Features: '' @ format_f 2 (spectral_centroid f) @ CHR 0x0A #
     (''            - '' @ ''Voice Patterns: '' @ format_f 4 (zero_crossing_rate f) @ [CHR 0x0A] @
     ''            \<newline>'' @
     ''            Based on training with Bengali audio content:\<newline>'' @
     ''            1. Identify any concerning speech patterns\<newline>'' @
     ''            2. Detect aggressive or threatening tones\<newline>'' @
     ''            3. Analyze emotional indicators\<newline>'' @
     ''            4. Note any suspicious audio elements\<newline>'' @
     ''            '')"
    by (simp add: audio_prompt_def)
  also have "field ''Spectral Features: '' \<dots> = format_f 2 (spectral_centroid f)"
    by (rule field_value) (simp_all add: format_f_plain)
  finally show ?thesis .
qed

lemma field_zcr: "field ''Voice Patterns: '' (audio_prompt f) = format_f 4 (zero_crossing_rate f)"
proof -
  have "audio_prompt f =
     (''\<newline>'' @
     ''            Analyze these audio characteristics for concerning content:\<newline>'' @
     ''            \<newline>'' @
     ''            Audio Features:\<newline>'' @
     ''            - '' @ ''Duration: '' @ format_f 2 (duration f) @ [CHR '' ''] @
     ''seconds\<newline>'' @
     ''            - '' @ ''Energy Level: '' @ format_f 4 (rms_energy f) @ [CHR 0x0A] @
     ''            - '' @ ''Spectral Features: '' @ format_f 2 (spectral_centroid f) @ [CHR 0x0A] @
     ''            - '') @ ''Voice Patterns: '' @ format_f 4 (zero_crossing_rate f) @ CHR 0x0A #
     (''            \<newline>'' @
     ''            Based on training with Bengali audio content:\<newline>'' @
     ''            1. Identify any concerning speech patterns\<newline>'' @
     ''            2. Detect aggressive or threatening tones\<newline>'' @
     ''            3. Analyze emotional indicators\<newline>'' @
     ''            4. Note any suspicious audio elements\<newline>'' @
     ''            '')"
    by (simp add: audio_prompt_def)
  also have "field ''Voice Patterns: '' \<dots> = format_f 4 (zero_crossing_rate f)"
    by (rule field_value) (simp_all add: format_f_plain)
  finally show ?thesis .
qed

text \<open>
  C4 (amended). In the audio prompt the field after \<^verbatim>\<open>Duration:\<close> is the duration with
  2 decimal places, the field after \<^verbatim>\<open>Energy Level:\<close> the RMS energy with 4, the field
  after \<^verbatim>\<open>Spectral Features:\<close> the spectral centroid with 2 and the field after
  \<^verbatim>\<open>Voice Patterns:\<close> the zero-crossing rate with 4. For the silent clip of three seconds
  the fields read \<^verbatim>\<open>3.00\<close>, \<^verbatim>\<open>0.0000\<close> and \<^verbatim>\<open>0.0000\<close>.
\<close>

theorem audio_prompt_precision:
  "field ''Duration: '' (audio_prompt f) = format_f 2 (duration f)
   \<and> decimals (field ''Duration: '' (audio_prompt f)) = 2
   \<and> field ''Energy Level: '' (audio_prompt f) = format_f 4 (rms_energy f)
   \<and> decimals (field ''Energy Level: '' (audio_prompt f)) = 4
   \<and> field ''Spectral Features: '' (audio_prompt f) = format_f 2 (spectral_centroid f)
   \<and> decimals (field ''Spectral Features: '' (audio_prompt f)) = 2
   \<and> field ''Voice Patterns: '' (audio_prompt f) = format_f 4 (zero_crossing_rate f)
   \<and> decimals (field ''Voice Patterns: '' (audio_prompt f)) = 4
   \<and> field ''Duration: ''
         (audio_prompt \<lparr>duration = 3, rms_energy = 0, spectral_centroid = c,
                         zero_crossing_rate = 0\<rparr>) = ''3.00''
   \<and> field ''Energy Level: ''
         (audio_prompt \<lparr>duration = 3, rms_energy = 0, spectral_centroid = c,
                         zero_crossing_rate = 0\<rparr>) = ''0.0000''
   \<and> field ''Voice Patterns: ''
         (audio_prompt \<lparr>duration = 3, rms_energy = 0, spectral_centroid = c,
                         zero_crossing_rate = 0\<rparr>) = ''0.0000''"
  by (simp add: field_duration field_energy field_centroid field_zcr decimals_format_f
      format_values)

text \<open>
  C4 as stated fails on the energy: the source formats it with \<^verbatim>\<open>.4f\<close>, the specification
  says 2 decimal places.
\<close>

theorem energy_precision_counterexample:
  "field ''Energy Level: ''
     (audio_prompt \<lparr>duration = 3, rms_energy = 0, spectral_centroid = 0,
                     zero_crossing_rate = 0\<rparr>) = ''0.0000''
   \<and> decimals (field ''Energy Level: ''
        (audio_prompt \<lparr>duration = 3, rms_energy = 0, spectral_centroid = 0,
                        zero_crossing_rate = 0\<rparr>)) \<noteq> 2
   \<and> audio_prompt \<lparr>duration = 3, rms_energy = 0, spectral_centroid = 0,
                     zero_crossing_rate = 0\<rparr>
       \<noteq> spec_audio_prompt \<lparr>duration = 3, rms_energy = 0, spectral_centroid = 0,
                            zero_crossing_rate = 0\<rparr>"
proof -
  have "audio_prompt \<lparr>duration = 3, rms_energy = 0, spectral_centroid = 0,
                     zero_crossing_rate = 0\<rparr>
       \<noteq> spec_audio_prompt \<lparr>duration = 3, rms_energy = 0, spectral_centroid = 0,
                            zero_crossing_rate = 0\<rparr>"
    by (simp add: audio_prompt_def spec_audio_prompt_def format_values)
  then show ?thesis
    by (simp add: field_energy format_values decimals_def)
qed

subsection \<open>Writing a report and reading it back\<close>

lemma split3: "(c::nat) div 4096 * 4096 + c div 64 mod 64 * 64 + c mod 64 = c"
proof -
  have e1: "c div 64 * 64 + c mod 64 = c" by simp
  have e2: "c div 64 div 64 * 64 + c div 64 mod 64 = c div 64" by simp
  have a: "c div 4096 = c div 64 div 64" by (simp add: div_mult2_eq)
  show ?thesis unfolding a using e1 e2 by linarith
qed

lemma split4:
  "(c::nat) div 262144 * 262144 + c div 4096 mod 64 * 4096 + c div 64 mod 64 * 64 + c mod 64 = c"
proof -
  have e1: "c div 64 * 64 + c mod 64 = c" by simp
  have e2: "c div 64 div 64 * 64 + c div 64 mod 64 = c div 64" by simp
  have e3: "c div 64 div 64 div 64 * 64 + c div 64 div 64 mod 64 = c div 64 div 64" by simp
  have a: "c div 4096 = c div 64 div 64" by (simp add: div_mult2_eq)
  have b: "c div 262144 = c div 64 div 64 div 64" by (simp add: div_mult2_eq)
  show ?thesis unfolding a b using e1 e2 e3 by linarith
qed

lemma utf8_decode_char:
  assumes "utf8_char c = Some bs"
  shows "utf8_decode (bs @ rest) = map_option ((#) c) (utf8_decode rest)"
proof -
  consider "c < 0x80" | "0x80 \<le> c" "c < 0x800" | "0x800 \<le> c" "c < 0x10000"
    | "0x10000 \<le> c" "c < 0x110000" | "0x110000 \<le> c"
    by linarith
  then show ?thesis
  proof cases
    case 1
    then show ?thesis using assms by (auto simp: utf8_char_def)
  next
    case 2
    then have bs: "bs = [0xC0 + c div 64, 0x80 + c mod 64]"
      using assms by (simp add: utf8_char_def)
    have "2 \<le> c div 64" "c div 64 < 32" using 2 by simp_all
    moreover have "c div 64 * 64 + c mod 64 = c" by simp
    ultimately show ?thesis
      unfolding bs by (simp add: continuation_def)
  next
    case 3
    then have ns: "\<not> (0xD800 \<le> c \<and> c \<le> 0xDFFF)"
      and bs: "bs = [0xE0 + c div 4096, 0x80 + c div 64 mod 64, 0x80 + c mod 64]"
      using assms by (auto simp: utf8_char_def split: if_splits)
    have "c div 4096 < 16" using 3 by simp
    moreover have "c div 4096 * 4096 + c div 64 mod 64 * 64 + c mod 64 = c"
      by (rule split3)
    ultimately show ?thesis
      unfolding bs using 3 ns by (simp add: continuation_def Let_def)
  next
    case 4
    then have bs: "bs = [0xF0 + c div 262144, 0x80 + c div 4096 mod 64,
                         0x80 + c div 64 mod 64, 0x80 + c mod 64]"
      using assms by (simp add: utf8_char_def)
    have "c div 262144 < 5" using 4 by simp
    moreover have "c div 262144 * 262144 + c div 4096 mod 64 * 4096
                     + c div 64 mod 64 * 64 + c mod 64 = c"
      by (rule split4)
    ultimately show ?thesis
      unfolding bs using 4 by (simp add: continuation_def Let_def)
  next
    case 5
    then show ?thesis using assms by (simp add: utf8_char_def)
  qed
qed

lemma utf8_decode_encode: "utf8_encode s = Some bs \<Longrightarrow> utf8_decode bs = Some s"
proof (induction s arbitrary: bs)
  case Nil
  then show ?case by simp
next
  case (Cons c s)
  then obtain b rest where b: "utf8_char c = Some b" and rest: "utf8_encode s = Some rest"
    and bs: "bs = b @ rest"
    by (auto split: option.splits)
  show ?case
    unfolding bs utf8_decode_char [OF b] using Cons.IH [OF rest] by simp
qed


lemma hex_val_digit: "d < 16 \<Longrightarrow> hex_val (hex_digit d) = Some d"
  by (auto simp: hex_val_def hex_digit_def)

lemma hex4_escape: "c < 32 \<Longrightarrow> hex4 [0x30, 0x30, hex_digit (c div 16), hex_digit (c mod 16)] = Some c"
proof -
  assume c: "c < 32"
  have "hex_val 0x30 = Some 0" by (simp add: hex_val_def)
  moreover have "hex_val (hex_digit (c div 16)) = Some (c div 16)"
    using c by (intro hex_val_digit) simp
  moreover have "hex_val (hex_digit (c mod 16)) = Some (c mod 16)"
    by (intro hex_val_digit) simp
  ultimately show ?thesis by (simp add: hex4_def)
qed

lemma scan_string_escape:
  "scan_string (escape_char c @ tail) = cons_char c (scan_string tail)"
proof -
  consider "c = 0x22" | "c = 0x5C" | "c = 0x0A" | "c = 0x0D" | "c = 0x09" | "c = 0x08"
    | "c = 0x0C"
    | "c < 0x20" "c \<noteq> 0x0A" "c \<noteq> 0x0D" "c \<noteq> 0x09" "c \<noteq> 0x08" "c \<noteq> 0x0C"
    | "0x20 \<le> c" "c \<noteq> 0x22" "c \<noteq> 0x5C"
    by linarith
  then show ?thesis
  proof cases
    case 8
    then have e: "escape_char c = [0x5C, 0x75, 0x30, 0x30, hex_digit (c div 16), hex_digit (c mod 16)]"
      by (simp add: escape_char_def)
    show ?thesis
      unfolding e using 8(1) by (simp add: scan_string.simps hex4_escape)
  next
    case 9
    then show ?thesis by (simp add: escape_char_def scan_string.simps)
  qed (simp_all add: escape_char_def scan_string.simps unescape_def)
qed

lemma scan_string_encoded:
  "scan_string (concat (map escape_char s) @ 0x22 # rest) = Some (s, rest)"
proof (induction s)
  case Nil
  show ?case by (simp add: scan_string.simps)
next
  case (Cons c s)
  then show ?case by (simp add: scan_string_escape cons_char_def)
qed

lemma scan_value_encoded: "scan_value (encode_value v @ rest) = Some (v, rest)"
proof (cases v)
  case None
  have "ascii ''null'' = [0x6E, 0x75, 0x6C, 0x6C]" by (simp add: ascii_def)
  then show ?thesis using None by (simp add: scan_value_def encode_value_def)
next
  case (Some s)
  then show ?thesis
    by (simp add: scan_value_def encode_value_def encode_basestring_def scan_string_encoded)
qed

lemma punctuation:
  "ascii ''{\<newline>  '' = [0x7B, 0x0A, 0x20, 0x20]"
  "ascii '': '' = [0x3A, 0x20]"
  "ascii '',\<newline>  '' = [0x2C, 0x0A, 0x20, 0x20]"
  "ascii ''\<newline>}'' = [0x0A, 0x7D]"
  by (simp_all add: ascii_def)

lemma skip_ws_simps:
  "skip_ws [] = []"
  "skip_ws (0x20 # s) = skip_ws s"
  "skip_ws (0x0A # s) = skip_ws s"
  "skip_ws (0x22 # s) = 0x22 # s"
  "skip_ws (0x3A # s) = 0x3A # s"
  "skip_ws (0x2C # s) = 0x2C # s"
  "skip_ws (0x7B # s) = 0x7B # s"
  "skip_ws (0x7D # s) = 0x7D # s"
  by (simp_all add: skip_ws_def is_ws_def)

lemma skip_ws_value: "skip_ws (encode_value v @ rest) = encode_value v @ rest"
  by (cases v) (simp_all add: encode_value_def encode_basestring_def ascii_def skip_ws_def is_ws_def)

lemma scan_members_more:
  "scan_members (concat (map escape_char k) @ 0x22 # ascii '': '' @ encode_value v
                  @ ascii '',\<newline>  '' @ 0x22 # others)
     = (case scan_members others of
          None \<Rightarrow> None
        | Some (pairs, rest) \<Rightarrow> Some ((k, v) # pairs, rest))"
  by (subst scan_members.simps)
     (simp add: scan_string_encoded punctuation skip_ws_simps skip_ws_value scan_value_encoded)

lemma scan_members_last:
  "scan_members (concat (map escape_char k) @ 0x22 # ascii '': '' @ encode_value v
                  @ ascii ''\<newline>}'' @ rest)
     = Some ([(k, v)], rest)"
  by (subst scan_members.simps)
     (simp add: scan_string_encoded punctuation skip_ws_simps skip_ws_value scan_value_encoded)

lemma json_loads_dumps:
  "json_loads (json_dumps r)
     = Some [(ascii ''timestamp'', Some (timestamp r)),
             (ascii ''video_analysis'', video_analysis r),
             (ascii ''audio_analysis'', audio_analysis r)]"
proof -
  let ?k = "\<lambda>s. concat (map escape_char (ascii s))"
  have "json_dumps r =
          [0x7B, 0x0A, 0x20, 0x20, 0x22] @
          (?k ''timestamp'' @ [0x22] @ ascii '': '' @ encode_value (Some (timestamp r))
             @ ascii '',\<newline>  '' @ [0x22] @
           (?k ''video_analysis'' @ [0x22] @ ascii '': '' @ encode_value (video_analysis r)
             @ ascii '',\<newline>  '' @ [0x22] @
            (?k ''audio_analysis'' @ [0x22] @ ascii '': '' @ encode_value (audio_analysis r)
             @ ascii ''\<newline>}'' @ [])))"
    by (simp add: json_dumps_def punctuation(1) encode_basestring_def encode_value_def)
  then show ?thesis
    unfolding json_loads_def
    by (simp only: append_Cons append_Nil skip_ws_simps list.case if_False if_True
          scan_members_more scan_members_last option.case prod.case
          numeral_eq_iff semiring_norm simp_thms refl)
qed

lemma keys_distinct:
  "ascii ''timestamp'' \<noteq> ascii ''video_analysis''"
  "ascii ''timestamp'' \<noteq> ascii ''audio_analysis''"
  "ascii ''video_analysis'' \<noteq> ascii ''audio_analysis''"
  by (simp_all add: ascii_def)

lemma report_of_dumped_pairs:
  "report_of_pairs [(ascii ''timestamp'', Some (timestamp r)),
                    (ascii ''video_analysis'', video_analysis r),
                    (ascii ''audio_analysis'', audio_analysis r)] = Some r"
  using keys_distinct keys_distinct [symmetric]
  by (simp add: report_of_pairs_def)


lemma load_report_encoded:
  "utf8_encode (json_dumps r) = Some data \<Longrightarrow> load_report data = Some r"
  by (simp add: load_report_def utf8_decode_encode json_loads_dumps report_of_dumped_pairs)

text \<open>
  C7. Every report that \<^verbatim>\<open>save_results\<close> has written is read back from its file field for
  field: the UTF-8 decoder and the JSON decoder return the timestamp and both analyses as
  they were, whatever characters they hold. The write succeeds exactly when the file can be
  opened and the texts of the report are sequences of Unicode scalar values (a lone
  surrogate has no UTF-8 form).
\<close>

theorem report_round_trip:
  assumes "fst (save_results env r w) = Inr file"
  shows "file = output_file env
       \<and> read_report (snd (save_results env r w)) file = Some r
       \<and> fs_error env (OpenWrite (output_file env)) = None
       \<and> list_all scalar_value (timestamp r)
       \<and> (case video_analysis r of None \<Rightarrow> True | Some s \<Rightarrow> list_all scalar_value s)
       \<and> (case audio_analysis r of None \<Rightarrow> True | Some s \<Rightarrow> list_all scalar_value s)"
proof -
  from assms have fs: "fs_error env (OpenWrite (output_file env)) = None"
    by (auto simp: save_results_def split: option.splits)
  with assms obtain data where d: "utf8_encode (json_dumps r) = Some data"
    by (auto simp: save_results_def split: option.splits)
  then have sc: "list_all scalar_value (json_dumps r)"
    using utf8_encode_Some_iff [of "json_dumps r"] by simp
  have s: "save_results env r w = (Inr (output_file env),
        w\<lparr>stored := (output_file env, data) # stored w,
          logs := logs w @ [''Results saved to '' @ output_file env]\<rparr>)"
    using fs d by (simp add: save_results_def)
  have f: "file = output_file env" using assms s by simp
  have "read_report (snd (save_results env r w)) file = Some r"
    unfolding s f using load_report_encoded [OF d] by (simp add: read_report_def)
  then show ?thesis
    using f fs sc by (simp add: scalar_json_dumps)
qed

theorem report_round_trip_witness:
  "fst (save_results example_env
          \<lparr>timestamp = ascii ''2024-05-01T10:20:30.123456'', video_analysis = None,
             audio_analysis = Some bengali_text\<rparr> empty_world)
     = Inr ''analysis_results/analysis_20240501_102030.json''
   \<and> read_report
         (snd (save_results example_env
                 \<lparr>timestamp = ascii ''2024-05-01T10:20:30.123456'', video_analysis = None,
                    audio_analysis = Some bengali_text\<rparr> empty_world))
         ''analysis_results/analysis_20240501_102030.json''
       = Some \<lparr>timestamp = ascii ''2024-05-01T10:20:30.123456'', video_analysis = None,
                audio_analysis = Some bengali_text\<rparr>"
proof -
  let ?r = "\<lparr>timestamp = ascii ''2024-05-01T10:20:30.123456'', video_analysis = None,
              audio_analysis = Some bengali_text\<rparr>"
  have fs: "fs_error example_env (OpenWrite (output_file example_env)) = None"
    by (simp add: example_env_def)
  have o: "output_file example_env = ''analysis_results/analysis_20240501_102030.json''"
    by (simp add: output_file_def example_env_def)
  have "list_all scalar_value (json_dumps ?r)"
    by (simp add: scalar_json_dumps scalar_ascii scalar_bengali)
  from save_results_ok [OF fs this, of empty_world]
  have ok: "fst (save_results example_env ?r empty_world)
              = Inr ''analysis_results/analysis_20240501_102030.json''"
    unfolding o by auto
  show ?thesis
    using report_round_trip [OF ok] ok by blast
qed

subsection \<open>Resources on the paths that reach their release\<close>

lemma remove1_snoc: "p \<notin> set xs \<Longrightarrow> remove1 p (xs @ [p]) = xs"
  by (simp add: remove1_append remove1_idem)

lemma extract_frames_releases:
  assumes "0 < C" and "\<forall>i. \<not> raises (video_at env p) i" and "p \<notin> set (open_caps w)"
  shows "snd (extract_frames env p C w) = w"
proof -
  obtain frames where "sample_frames (video_at env p) C = Inr frames"
    using sample_frames_spec [OF assms(1,2)] by blast
  then show ?thesis
    using assms(3) by (simp add: extract_frames_def Let_def remove1_snoc)
qed

lemma analyze_video_resources:
  assumes "\<forall>i. \<not> raises (video_at env p) i" and "p \<notin> set (open_caps w)"
  shows "tmp_files (snd (analyze_video env p w)) = tmp_files w"
    and "open_caps (snd (analyze_video env p w)) = open_caps w"
proof -
  have c: "(0::int) < 10" by simp
  obtain frames where e: "extract_frames env p 10 w = (Inr frames, w)"
    using extract_frames_releases [OF c assms] sample_frames_spec [OF c assms(1)]
      extract_frames_fst [of env p 10 w]
    by (cases "extract_frames env p 10 w") auto
  show "tmp_files (snd (analyze_video env p w)) = tmp_files w"
    and "open_caps (snd (analyze_video env p w)) = open_caps w"
    by (simp_all add: analyze_video_def analyze_video_try_def e Let_def
          split: sum.splits prod.splits)
qed

lemma analyze_audio_resources:
  "tmp_files (snd (analyze_audio env p w)) = tmp_files w"
  "open_caps (snd (analyze_audio env p w)) = open_caps w"
  by (simp_all add: analyze_audio_def analyze_audio_try_def Let_def split: sum.splits prod.splits)

lemma video_block_resources:
  assumes fs: "\<forall>op. fs_error env op = None" and up: "readable vf"
    and nr: "\<forall>i. \<not> raises (video_at env (tmp_video env)) i"
    and t: "tmp_video env \<notin> set (tmp_files w)" and c: "tmp_video env \<notin> set (open_caps w)"
  shows "tmp_files (snd (video_block env vf r w)) = tmp_files w"
    and "open_caps (snd (video_block env vf r w)) = open_caps w"
proof -
  let ?w2 = "w\<lparr>logs := logs w @ [''Analyzing video...''],
               tmp_files := tmp_files w @ [tmp_video env]\<rparr>"
  have c2: "tmp_video env \<notin> set (open_caps ?w2)" using c by simp
  note a = analyze_video_resources [OF nr c2]
  obtain va w3 where v: "analyze_video env (tmp_video env) ?w2 = (va, w3)"
    by (cases "analyze_video env (tmp_video env) ?w2")
  have w3: "tmp_files w3 = tmp_files w @ [tmp_video env]" "open_caps w3 = open_caps w"
    using a v by simp_all
  show "tmp_files (snd (video_block env vf r w)) = tmp_files w"
    and "open_caps (snd (video_block env vf r w)) = open_caps w"
    using fs up v w3 t
    by (auto simp: video_block_def readable_def Let_def remove1_snoc split: option.splits sum.splits)
qed

lemma audio_block_resources:
  assumes fs: "\<forall>op. fs_error env op = None" and up: "readable af"
    and t: "tmp_audio env \<notin> set (tmp_files w)"
  shows "tmp_files (snd (audio_block env af r w)) = tmp_files w"
    and "open_caps (snd (audio_block env af r w)) = open_caps w"
proof -
  let ?w2 = "w\<lparr>logs := logs w @ [''Analyzing audio...''],
               tmp_files := tmp_files w @ [tmp_audio env]\<rparr>"
  note a = analyze_audio_resources [of env "tmp_audio env" ?w2]
  obtain va w3 where v: "analyze_audio env (tmp_audio env) ?w2 = (va, w3)"
    by (cases "analyze_audio env (tmp_audio env) ?w2")
  have w3: "tmp_files w3 = tmp_files w @ [tmp_audio env]" "open_caps w3 = open_caps w"
    using a v by simp_all
  show "tmp_files (snd (audio_block env af r w)) = tmp_files w"
    and "open_caps (snd (audio_block env af r w)) = open_caps w"
    using fs up v w3 t
    by (auto simp: audio_block_def readable_def Let_def remove1_snoc split: option.splits sum.splits)
qed

text \<open>
  X1. Where the release is reached: when every file-system operation succeeds, the uploads can
  be read and no seek or read of the capture raises, the invocation leaves no temporary
  file and no open capture handle behind, whether or not a branch fails at the conversion
  of a frame, the feature extraction or the inference call.
\<close>

theorem resources_released_when_nothing_raises_early:
  assumes fs: "\<forall>op. fs_error env op = None"
    and up: "readable vf" "readable af"
    and nr: "\<forall>i. \<not> raises (video_at env (tmp_video env)) i"
    and fresh: "tmp_video env \<notin> set (tmp_files w)" "tmp_audio env \<notin> set (tmp_files w)"
               "tmp_video env \<notin> set (open_caps w)"
  shows "tmp_files (snd (analyze_content env vf af w)) = tmp_files w
       \<and> open_caps (snd (analyze_content env vf af w)) = open_caps w"
proof -
  let ?r0 = "\<lparr>timestamp = ascii (now_iso env), video_analysis = None, audio_analysis = None\<rparr>"
  obtain x1 w1 where vb: "video_block env vf ?r0 w = (x1, w1)"
    by (cases "video_block env vf ?r0 w")
  have w1: "tmp_files w1 = tmp_files w" "open_caps w1 = open_caps w"
    using video_block_resources [OF fs up(1) nr fresh(1,3), of ?r0] vb by simp_all
  show ?thesis
  proof (cases x1)
    case (Inl e)
    then show ?thesis using vb w1 by (simp add: analyze_content_def analyze_content_try_def)
  next
    case (Inr r1)
    obtain x2 w2 where ab: "audio_block env af r1 w1 = (x2, w2)"
      by (cases "audio_block env af r1 w1")
    have "tmp_audio env \<notin> set (tmp_files w1)" using fresh(2) w1 by simp
    from audio_block_resources [OF fs up(2) this, of r1]
    have w2: "tmp_files w2 = tmp_files w" "open_caps w2 = open_caps w"
      using ab w1 by simp_all
    show ?thesis
    proof (cases x2)
      case (Inl e)
      then show ?thesis using vb Inr ab w2
        by (simp add: analyze_content_def analyze_content_try_def)
    next
      case r2: (Inr r2)
      obtain x3 w3 where sv: "save_results env r2 w2 = (x3, w3)"
        by (cases "save_results env r2 w2")
      have "tmp_files w3 = tmp_files w" "open_caps w3 = open_caps w"
        using save_results_world(1,2) [of env r2 w2] sv w2 by simp_all
      then show ?thesis using vb Inr ab r2 sv
        by (cases x3) (simp_all add: analyze_content_def analyze_content_try_def)
    qed
  qed
qed

theorem resources_released_witness:
  "(\<forall>op. fs_error example_env op = None)
   \<and> readable (Some (Inr [])) \<and> readable None
   \<and> (\<forall>i. \<not> raises (video_at example_env (tmp_video example_env)) i)
   \<and> tmp_video example_env \<notin> set (tmp_files empty_world)
   \<and> tmp_audio example_env \<notin> set (tmp_files empty_world)
   \<and> tmp_video example_env \<notin> set (open_caps empty_world)
   \<and> tmp_files (snd (analyze_content example_env (Some (Inr [])) None empty_world)) = []
   \<and> open_caps (snd (analyze_content example_env (Some (Inr [])) None empty_world)) = []"
proof -
  have fs: "\<forall>op. fs_error example_env op = None" by (simp add: example_env_def)
  have r1: "readable (Some (Inr []))" and r2: "readable None" by (simp_all add: readable_def)
  have nr: "\<forall>i. \<not> raises (video_at example_env (tmp_video example_env)) i"
    by (simp add: raises_def example_env_def)
  have f1: "tmp_video example_env \<notin> set (tmp_files empty_world)"
    and f2: "tmp_audio example_env \<notin> set (tmp_files empty_world)"
    and f3: "tmp_video example_env \<notin> set (open_caps empty_world)"
    by (simp_all add: empty_world_def)
  have e: "tmp_files empty_world = []" "open_caps empty_world = []"
    by (simp_all add: empty_world_def)
  show ?thesis
    using resources_released_when_nothing_raises_early [OF fs r1 r2 nr f1 f2 f3]
      fs r1 r2 nr f1 f2 f3
    unfolding e by blast
qed

subsection \<open>The duration\<close>

text \<open>
  X2. The duration that \<^verbatim>\<open>extract_audio_features\<close> returns is the length of the waveform over
  the sample rate: for a positive rate it is not negative, and it is zero for the empty
  waveform only.
\<close>

theorem duration_of_waveform:
  assumes "librosa_load env p = Inr (y, sr)" and "0 < sr"
    and "extract_audio_features env p = Inr f"
  shows "duration f = of_nat (length y) / of_int sr
       \<and> 0 \<le> duration f
       \<and> (duration f = 0) = (y = [])"
proof -
  have "duration f = of_nat (length y) / of_int sr"
    using assms by (auto simp: extract_audio_features_def split: sum.splits if_splits)
  then show ?thesis using assms(2) by simp
qed

theorem duration_of_waveform_witness:
  "librosa_load example_env ''/tmp/tmpaudio.wav'' = Inr (replicate 66150 0, 22050)
   \<and> (0::int) < 22050
   \<and> extract_audio_features example_env ''/tmp/tmpaudio.wav''
       = Inr \<lparr>duration = 3, rms_energy = 0, spectral_centroid = 0, zero_crossing_rate = 0\<rparr>
   \<and> duration \<lparr>duration = 3, rms_energy = 0, spectral_centroid = 0, zero_crossing_rate = 0\<rparr>
       = of_nat (length (replicate 66150 (0::rat))) / of_int 22050"
proof -
  have l: "librosa_load example_env ''/tmp/tmpaudio.wav'' = Inr (replicate 66150 0, 22050)"
    by (simp add: example_env_def)
  have s: "(0::int) < 22050" by simp
  show ?thesis
    using duration_of_waveform [OF l s example_features] l example_features by simp
qed

subsection \<open>The bounds of the acoustic features\<close>

text \<open>Every window is full and there is at least one: no mean is taken over nothing.\<close>

lemma windows_full:
  assumes "0 < N" and "0 < H"
  shows "windows N H y \<noteq> []" and "\<forall>w\<in>set (windows N H y). length w = N"
proof -
  show "windows N H y \<noteq> []" by (simp add: windows_def)
  show "\<forall>w\<in>set (windows N H y). length w = N"
  proof
    fix w assume "w \<in> set (windows N H y)"
    then obtain k where k': "k \<in> {0..<Suc (length y div H)}"
      and w: "w = take N (drop (k * H) (replicate (N div 2) 0 @ y @ replicate N 0))"
      unfolding windows_def set_map set_upt by blast
    have k: "k \<le> length y div H" using k' by simp
    have "k * H \<le> length y div H * H" using k by (rule mult_le_mono1)
    also have "\<dots> \<le> length y" by simp
    finally have "k * H \<le> length y" .
    then show "length w = N"
      unfolding w
      by (simp only: length_take length_drop length_append length_replicate)
  qed
qed

lemma windows_samples: "w \<in> set (windows N H y) \<Longrightarrow> set w \<subseteq> insert 0 (set y)"
proof -
  assume "w \<in> set (windows N H y)"
  then obtain k where
    w: "w = take N (drop (k * H) (replicate (N div 2) 0 @ y @ replicate N 0))"
    unfolding windows_def set_map set_upt by blast
  have "set w \<subseteq> set (replicate (N div 2) (0::real) @ y @ replicate N 0)"
    unfolding w by (meson set_take_subset set_drop_subset subset_trans)
  also have "\<dots> \<subseteq> insert 0 (set y)" by auto
  finally show ?thesis .
qed

lemma mean_nonneg: "\<forall>x\<in>set xs. 0 \<le> x \<Longrightarrow> 0 \<le> mean xs"
  by (simp add: mean_def sum_list_nonneg)

lemma sum_list_le_length: "\<forall>x\<in>set xs. x \<le> (1::real) \<Longrightarrow> sum_list xs \<le> real (length xs)"
  by (induction xs) auto

lemma mean_le_one: "\<forall>x\<in>set xs. x \<le> 1 \<Longrightarrow> mean xs \<le> 1"
proof (cases "xs = []")
  case True
  then show ?thesis by (simp add: mean_def)
next
  case False
  assume "\<forall>x\<in>set xs. x \<le> 1"
  then have "sum_list xs \<le> real (length xs)" by (rule sum_list_le_length)
  then show ?thesis using False by (simp add: mean_def divide_le_eq)
qed

lemma mean_zero: "\<forall>x\<in>set xs. x = 0 \<Longrightarrow> mean xs = 0"
proof -
  assume "\<forall>x\<in>set xs. x = 0"
  then have "sum_list xs = 0" by (induction xs) auto
  then show ?thesis by (simp add: mean_def)
qed

lemma rms_frame_nonneg: "0 \<le> rms_frame w"
  by (simp add: rms_frame_def mean_nonneg)

lemma sign_changes_le: "sign_changes w \<le> length w"
  by (induction w rule: sign_changes.induct) auto

lemma zcr_frame_bounds: "0 \<le> zcr_frame w" "zcr_frame w \<le> 1"
proof -
  show "0 \<le> zcr_frame w" by (simp add: zcr_frame_def)
  show "zcr_frame w \<le> 1"
    using sign_changes_le [of w] by (cases "w = []") (simp_all add: zcr_frame_def divide_le_eq)
qed

lemma sign_changes_silent: "\<forall>x\<in>set w. x = 0 \<Longrightarrow> sign_changes w = 0"
  by (induction w rule: sign_changes.induct) auto

lemma spec_rms_mean_nonneg: "0 \<le> spec_rms_mean N H y"
  by (simp add: spec_rms_mean_def mean_nonneg rms_frame_nonneg)

lemma spec_zcr_mean_bounds: "0 \<le> spec_zcr_mean N H y" "spec_zcr_mean N H y \<le> 1"
  by (simp_all add: spec_zcr_mean_def mean_nonneg mean_le_one zcr_frame_bounds)

lemma silent_windows:
  assumes "\<forall>x\<in>set y. x = 0" and "w \<in> set (windows N H y)"
  shows "\<forall>x\<in>set w. x = 0"
  using windows_samples [OF assms(2)] assms(1) by auto

lemma spec_silent:
  assumes "\<forall>x\<in>set y. x = 0"
  shows "spec_rms_mean N H y = 0" and "spec_zcr_mean N H y = 0"
proof -
  have r: "rms_frame w = 0" if "w \<in> set (windows N H y)" for w
    using silent_windows [OF assms that] by (simp add: rms_frame_def mean_zero)
  have z: "zcr_frame w = 0" if "w \<in> set (windows N H y)" for w
    using silent_windows [OF assms that] by (simp add: zcr_frame_def sign_changes_silent)
  show "spec_rms_mean N H y = 0" by (simp add: spec_rms_mean_def mean_zero r)
  show "spec_zcr_mean N H y = 0" by (simp add: spec_zcr_mean_def mean_zero z)
qed

lemma rounding_bounds:
  assumes "rounding rnd"
  shows "0 \<le> x \<Longrightarrow> 0 \<le> rnd x" and "x \<le> 1 \<Longrightarrow> rnd x \<le> 1"
proof -
  have m: "mono rnd" and z: "rnd 0 = 0" and o: "rnd 1 = 1"
    using assms by (simp_all add: rounding_def)
  show "0 \<le> rnd x" if "0 \<le> x" using monoD [OF m that] z by simp
  show "rnd x \<le> 1" if "x \<le> 1" using monoD [OF m that] o by simp
qed

lemma extract_audio_features_fields:
  assumes "librosa_load env p = Inr (y, sr)" and "extract_audio_features env p = Inr f"
  shows "sr \<noteq> 0" and "duration f = of_nat (length y) / of_int sr"
    and "rms_mean env y = Inr (rms_energy f)"
    and "zcr_mean env y = Inr (zero_crossing_rate f)"
  using assms
  by (auto simp: extract_audio_features_def split: sum.splits if_splits)

text \<open>
  C6. In an environment whose librosa computes the two features as the specification
  describes them, every feature vector that \<^verbatim>\<open>extract_audio_features\<close> returns has a
  zero-crossing rate between 0 and 1, an RMS energy and a duration that are not negative,
  and a duration that is zero for the zero-length waveform only; for a waveform of zeros the
  RMS energy and the zero-crossing rate are zero.
\<close>

theorem acoustic_feature_bounds:
  assumes "0 < N" and "0 < H" and "rounding rnd"
    and "librosa_as_specified N H rnd env p"
    and "librosa_load env p = Inr (y, sr)"
    and "extract_audio_features env p = Inr f"
  shows "0 \<le> zero_crossing_rate f \<and> zero_crossing_rate f \<le> 1
       \<and> 0 \<le> rms_energy f
       \<and> 0 \<le> duration f
       \<and> (duration f = 0) = (y = [])
       \<and> ((\<forall>x\<in>set y. x = 0) \<longrightarrow> rms_energy f = 0 \<and> zero_crossing_rate f = 0)"
proof -
  let ?y = "map of_rat y :: real list"
  have sr: "0 < sr"
    and rms: "rms_mean env y = Inr (rnd (spec_rms_mean N H ?y))"
    and zcr: "zcr_mean env y = Inr (rnd (spec_zcr_mean N H ?y))"
    using assms(4,5) by (simp_all add: librosa_as_specified_def)
  note fl = extract_audio_features_fields [OF assms(5,6)]
  have r: "rms_energy f = rnd (spec_rms_mean N H ?y)" using fl(3) rms by simp
  have z: "zero_crossing_rate f = rnd (spec_zcr_mean N H ?y)" using fl(4) zcr by simp
  have d: "duration f = of_nat (length y) / of_int sr" by (rule fl(2))
  have 1: "0 \<le> zero_crossing_rate f" "zero_crossing_rate f \<le> 1"
    unfolding z using rounding_bounds [OF assms(3)] spec_zcr_mean_bounds by simp_all
  have 2: "0 \<le> rms_energy f"
    unfolding r using rounding_bounds(1) [OF assms(3)] spec_rms_mean_nonneg by simp
  have 3: "0 \<le> duration f" "(duration f = 0) = (y = [])"
    unfolding d using sr by simp_all
  have 4: "rms_energy f = 0 \<and> zero_crossing_rate f = 0" if "\<forall>x\<in>set y. x = 0"
  proof -
    have "\<forall>x\<in>set ?y. x = 0" using that by simp
    from spec_silent [OF this, of N H] show ?thesis
      unfolding r z using assms(3) by (simp add: rounding_def)
  qed
  show ?thesis using 1 2 3 4 by blast
qed


lemma rounding_round_down: "rounding round_down"
proof -
  have "mono round_down"
  proof (rule monoI)
    fix x y :: real assume "x \<le> y"
    then have "\<lfloor>x * 16777216\<rfloor> \<le> \<lfloor>y * 16777216\<rfloor>" by (intro floor_mono) simp
    then show "round_down x \<le> round_down y"
      by (simp add: round_down_def divide_right_mono)
  qed
  then show ?thesis by (simp add: rounding_def round_down_def)
qed

theorem acoustic_feature_bounds_witness:
  "(0::nat) < 2048 \<and> (0::nat) < 512 \<and> rounding round_down
   \<and> librosa_as_specified 2048 512 round_down example_env ''/tmp/tmpaudio.wav''
   \<and> librosa_load example_env ''/tmp/tmpaudio.wav'' = Inr (replicate 66150 0, 22050)
   \<and> extract_audio_features example_env ''/tmp/tmpaudio.wav''
       = Inr \<lparr>duration = 3, rms_energy = 0, spectral_centroid = 0, zero_crossing_rate = 0\<rparr>
   \<and> librosa_as_specified 2048 512 round_down three_samples_env ''/tmp/tmpaudio.wav''
   \<and> librosa_load three_samples_env ''/tmp/tmpaudio.wav''
       = Inr ([1 / 2, - 1 / 2, 1 / 4], 22050)
   \<and> extract_audio_features three_samples_env ''/tmp/tmpaudio.wav''
       = Inr \<lparr>duration = 3 / 22050,
              rms_energy = round_down (spec_rms_mean 2048 512 [1 / 2, - 1 / 2, 1 / 4]),
              spectral_centroid = 0,
              zero_crossing_rate = round_down (spec_zcr_mean 2048 512 [1 / 2, - 1 / 2, 1 / 4])\<rparr>
   \<and> 0 \<le> round_down (spec_zcr_mean 2048 512 [1 / 2, - 1 / 2, 1 / 4])
   \<and> round_down (spec_zcr_mean 2048 512 [1 / 2, - 1 / 2, 1 / 4]) \<le> 1
   \<and> 0 \<le> round_down (spec_rms_mean 2048 512 [1 / 2, - 1 / 2, 1 / 4])"
proof -
  let ?p = "''/tmp/tmpaudio.wav''"
  let ?silent = "\<lparr>duration = 3, rms_energy = 0, spectral_centroid = 0,
                   zero_crossing_rate = 0 :: rat\<rparr>"
  let ?three = "\<lparr>duration = 3 / 22050,
              rms_energy = round_down (spec_rms_mean 2048 512 [1 / 2, - 1 / 2, 1 / 4]),
              spectral_centroid = 0,
              zero_crossing_rate = round_down (spec_zcr_mean 2048 512 [1 / 2, - 1 / 2, 1 / 4])\<rparr>"
  have n: "(0::nat) < 2048" "(0::nat) < 512" by simp_all
  have l1: "librosa_load example_env ?p = Inr (replicate 66150 0, 22050)"
    by (simp add: example_env_def)
  have z: "\<forall>x\<in>set (map of_rat (replicate 66150 (0::rat)) :: real list). x = 0" by simp
  have s1: "librosa_as_specified 2048 512 round_down example_env ?p"
    using spec_silent [OF z, of 2048 512]
    by (simp add: librosa_as_specified_def example_env_def round_down_def)
  have f1: "extract_audio_features example_env ?p = Inr ?silent"
    by (rule example_features)
  have l2: "librosa_load three_samples_env ?p = Inr ([1 / 2, - 1 / 2, 1 / 4], 22050)"
    by (simp add: three_samples_env_def)
  have s2: "librosa_as_specified 2048 512 round_down three_samples_env ?p"
    by (simp add: librosa_as_specified_def three_samples_env_def)
  have f2: "extract_audio_features three_samples_env ?p = Inr ?three"
    by (simp add: extract_audio_features_def three_samples_env_def example_env_def
          of_rat_divide of_rat_minus)
  note a = acoustic_feature_bounds [OF n rounding_round_down s1 l1 f1]
  note b = acoustic_feature_bounds [OF n rounding_round_down s2 l2 f2]
  have b': "0 \<le> round_down (spec_zcr_mean 2048 512 [1 / 2, - 1 / 2, 1 / 4])
            \<and> round_down (spec_zcr_mean 2048 512 [1 / 2, - 1 / 2, 1 / 4]) \<le> 1
            \<and> 0 \<le> round_down (spec_rms_mean 2048 512 [1 / 2, - 1 / 2, 1 / 4])"
    using b by simp
  show ?thesis
    using n rounding_round_down s1 l1 f1 s2 l2 f2 b' by blast
qed

end
